theory Spec2Isabelle
  imports Main "HOL-Library.AList"
begin

section \<open>Data model (backend/models.py)\<close>

text \<open>
  The two string-valued enumerations. \<open>activity_type_value\<close> and \<open>status_value\<close> are the
  \<^verbatim>\<open>.value\<close> of a member.
\<close>

datatype activity_type = CREATED | UPDATED | STATUS_CHANGED | NOTE_ADDED | TAG_ADDED | TAG_REMOVED

fun activity_type_value :: "activity_type \<Rightarrow> string" where
  "activity_type_value CREATED = ''created''"
| "activity_type_value UPDATED = ''updated''"
| "activity_type_value STATUS_CHANGED = ''status_changed''"
| "activity_type_value NOTE_ADDED = ''note_added''"
| "activity_type_value TAG_ADDED = ''tag_added''"
| "activity_type_value TAG_REMOVED = ''tag_removed''"

datatype lead_status = NOT_CONTACTED | CONTACTED | RESPONDED

fun status_value :: "lead_status \<Rightarrow> string" where
  "status_value NOT_CONTACTED = ''not_contacted''"
| "status_value CONTACTED = ''contacted''"
| "status_value RESPONDED = ''responded''"

text \<open>
  A naive \<^verbatim>\<open>datetime\<close>: year, month, day, hour, minute, second, microsecond. The
  program only creates, compares, prints and parses such values.
\<close>

datatype datetime = Datetime nat nat nat nat nat nat nat

record activity =
  timestamp :: datetime
  act_type :: activity_type
  description :: string
  details :: "string option"

text \<open>
  \<^verbatim>\<open>LeadBase\<close>; \<^verbatim>\<open>LeadCreate\<close> and \<^verbatim>\<open>LeadUpdate\<close> add nothing to it, \<^verbatim>\<open>Lead\<close> extends
  it. \<^verbatim>\<open>linkedin_url\<close> is a string once validated (the validator returns \<^verbatim>\<open>""\<close> for
  \<^verbatim>\<open>None\<close>); \<^verbatim>\<open>notes\<close> may be \<^verbatim>\<open>None\<close>. The field \<^verbatim>\<open>id\<close> is called \<open>lead_id\<close>.
\<close>

record lead_base =
  company_name :: string
  contact_name :: string
  title :: string
  email :: string
  linkedin_url :: string
  status :: lead_status
  "notes" :: "string option"
  tags :: "string list"

record lead = lead_base +
  lead_id :: string
  date_added :: datetime
  last_contacted :: "datetime option"
  activity_history :: "activity list"

type_synonym lead_create = lead_base
type_synonym lead_update = lead_base

section \<open>Library functions and exceptions\<close>

text \<open>
  A Python \<^verbatim>\<open>set\<close> of strings is a HOL set. A \<^verbatim>\<open>for\<close> loop over a set visits each
  element once, in an order the language leaves open: the order is a parameter
  \<open>iter\<close>, and \<open>iterates iter S\<close> says that \<open>iter\<close> lists \<open>S\<close> as a loop over it does.
\<close>

type_synonym set_iteration = "string set \<Rightarrow> string list"

definition iterates :: "set_iteration \<Rightarrow> string set \<Rightarrow> bool" where
  "iterates iter S \<longleftrightarrow> set (iter S) = S \<and> distinct (iter S)"

text \<open>
  The library functions of the runtime that the program calls and this development does
  not define: \<^verbatim>\<open>datetime.isoformat\<close>, \<^verbatim>\<open>datetime.fromisoformat\<close> (\<open>None\<close> where it raises
  \<^verbatim>\<open>ValueError\<close>), the order in which a loop visits a set, \<^verbatim>\<open>re.match\<close> with the e-mail
  pattern of \<^verbatim>\<open>validate_email\<close>, \<^verbatim>\<open>str.lower\<close> and \<^verbatim>\<open>str.strip\<close>.
\<close>

record runtime =
  isoformat :: "datetime \<Rightarrow> string"
  fromisoformat :: "string \<Rightarrow> datetime option"
  set_order :: set_iteration
  email_pattern_matches :: "string \<Rightarrow> bool"
  str_lower :: "string \<Rightarrow> string"
  str_strip :: "string \<Rightarrow> string"

datatype error =
    TypeError | AttributeError | ValueError | ValidationError | KeyError | FileNotFoundError

text \<open>Sequencing of computations that may raise.\<close>

definition and_then :: "error + 'a \<Rightarrow> ('a \<Rightarrow> error + 'b) \<Rightarrow> error + 'b" where
  "and_then r f = (case r of Inl e \<Rightarrow> Inl e | Inr x \<Rightarrow> f x)"

section \<open>Validation and construction of the models (backend/models.py)\<close>

text \<open>
  \<^verbatim>\<open>Activity(timestamp=..., type=..., description=..., details=...)\<close>: the fields of an
  activity carry no constraint, so the call with values of the declared types returns
  the record. A string is a list of characters, one element for each character of the
  Python string.
\<close>

definition Activity :: "datetime \<Rightarrow> activity_type \<Rightarrow> string \<Rightarrow> string option \<Rightarrow> activity" where
  "Activity ts ty descr det =
     \<lparr>timestamp = ts, act_type = ty, description = descr, details = det\<rparr>"

text \<open>
  The constraints \<^verbatim>\<open>Field(min_length=..., max_length=...)\<close> of a string field, and
  \<^verbatim>\<open>str.startswith\<close>.
\<close>

definition length_between :: "nat \<Rightarrow> nat \<Rightarrow> string \<Rightarrow> bool" where
  "length_between lo hi s \<longleftrightarrow> lo \<le> length s \<and> length s \<le> hi"

definition startswith :: "string \<Rightarrow> string \<Rightarrow> bool" where
  "startswith s p \<longleftrightarrow> take (length p) s = p"

text \<open>
  \<^verbatim>\<open>validate_linkedin_url\<close> (lines 116 to 133), on a string: a value that is empty, or
  empty once stripped, becomes the empty string; another value is stripped and, when it
  starts with neither scheme, prefixed with \<^verbatim>\<open>https://\<close>.
\<close>

definition validate_linkedin_url :: "runtime \<Rightarrow> string \<Rightarrow> string" where
  "validate_linkedin_url rt v =
     (if v \<noteq> [] \<and> str_strip rt v \<noteq> []
      then (let v = str_strip rt v
            in if \<not> (startswith v ''http://'' \<or> startswith v ''https://'')
               then ''https://'' @ v else v)
      else [])"

text \<open>
  Construction of a \<^verbatim>\<open>LeadBase\<close> (and of \<^verbatim>\<open>LeadCreate\<close>, \<^verbatim>\<open>LeadUpdate\<close>) from values of the
  declared types. Every field is checked against its constraints as it is given, and
  then passed through its validator: an e-mail address must match the pattern and is
  lower-cased (lines 94 to 114), a URL is normalised after its length has been checked.
  One failed check raises \<^verbatim>\<open>ValidationError\<close>.
\<close>

definition LeadBase :: "runtime \<Rightarrow> 'a lead_base_scheme \<Rightarrow> error + lead_base" where
  "LeadBase rt d =
     (if length_between 1 200 (company_name d) \<and>
         length_between 1 200 (contact_name d) \<and>
         length_between 1 200 (title d) \<and>
         length_between 5 200 (email d) \<and> email_pattern_matches rt (email d) \<and>
         length (linkedin_url d) \<le> 500 \<and>
         (case notes d of None \<Rightarrow> True | Some s \<Rightarrow> length s \<le> 2000)
      then Inr \<lparr>company_name = company_name d, contact_name = contact_name d,
                title = title d, email = str_lower rt (email d),
                linkedin_url = validate_linkedin_url rt (linkedin_url d),
                status = status d, notes = notes d, tags = tags d\<rparr>
      else Inl ValidationError)"

text \<open>
  \<^verbatim>\<open>Lead(id=..., date_added=..., last_contacted=..., activity_history=..., **fields)\<close>:
  the fields of the base class are validated again, as above, and the four fields of
  \<^verbatim>\<open>Lead\<close> carry no constraint. \<open>make_lead\<close> is the record of a lead with given fields.
\<close>

definition make_lead ::
  "string \<Rightarrow> datetime \<Rightarrow> datetime option \<Rightarrow> activity list \<Rightarrow> 'a lead_base_scheme \<Rightarrow> lead" where
  "make_lead i da lc ah base =
     \<lparr>company_name = company_name base, contact_name = contact_name base,
      title = title base, email = email base,
      linkedin_url = linkedin_url base, status = status base,
      notes = notes base, tags = tags base,
      lead_id = i, date_added = da, last_contacted = lc, activity_history = ah\<rparr>"

definition Lead ::
  "runtime \<Rightarrow> string \<Rightarrow> datetime \<Rightarrow> datetime option \<Rightarrow> activity list \<Rightarrow>
   'a lead_base_scheme \<Rightarrow> error + lead" where
  "Lead rt i da lc ah kwargs =
     and_then (LeadBase rt kwargs) (\<lambda>base. Inr (make_lead i da lc ah base))"

section \<open>History engine (the body of update_lead, backend/database.py)\<close>

text \<open>
  Truth value of an \<^verbatim>\<open>Optional[str]\<close>: \<^verbatim>\<open>None\<close> and the empty string are false.
\<close>

fun str_truthy :: "string option \<Rightarrow> bool" where
  "str_truthy None = False"
| "str_truthy (Some s) = (s \<noteq> [])"

text \<open>The f-strings that describe a status change and a tag change.\<close>

definition status_changed_description :: "lead_status \<Rightarrow> lead_status \<Rightarrow> string" where
  "status_changed_description old new =
     ''Status changed from '' @ status_value old @ '' to '' @ status_value new"

definition tag_added_description :: "string \<Rightarrow> string" where
  "tag_added_description tag = ''Tag added: '' @ tag"

definition tag_removed_description :: "string \<Rightarrow> string" where
  "tag_removed_description tag = ''Tag removed: '' @ tag"

text \<open>
  Lines 252 to 322: the new lead computed from the stored lead \<open>lead\<close>, the update
  \<open>lead_data\<close> and the clock reading \<open>now\<close>. Each \<^verbatim>\<open>activities.append\<close> adds one entry at
  the end of the list that starts as a copy of the stored history; the last test reads
  the last entry of that whole list. The call of \<^verbatim>\<open>Lead\<close> at the end validates the fields
  of the update again and may raise.
\<close>

definition updated_lead :: "runtime \<Rightarrow> datetime \<Rightarrow> lead \<Rightarrow> lead_update \<Rightarrow> error + lead" where
  "updated_lead rt now lead lead_data =
     (let activities = activity_history lead;
          activities =
            (if status lead_data \<noteq> status lead
             then activities @
               [Activity now STATUS_CHANGED
                  (status_changed_description (status lead) (status lead_data)) None]
             else activities);
          last_contacted' =
            (if status lead_data \<noteq> status lead
             then (if status_value (status lead_data) \<in> set [''contacted'', ''responded'']
                   then Some now else last_contacted lead)
             else last_contacted lead);
          activities =
            (if str_truthy (notes lead_data) \<and> notes lead_data \<noteq> notes lead
             then activities @
               [Activity now NOTE_ADDED ''Note updated''
                  (map_option (take 100) (notes lead_data))]
             else activities);
          old_tags = set (tags lead);
          new_tags = set (tags lead_data);
          added_tags = new_tags - old_tags;
          removed_tags = old_tags - new_tags;
          activities =
            foldl (\<lambda>acts tag. acts @ [Activity now TAG_ADDED (tag_added_description tag) None])
              activities (set_order rt added_tags);
          activities =
            foldl (\<lambda>acts tag. acts @ [Activity now TAG_REMOVED (tag_removed_description tag) None])
              activities (set_order rt removed_tags);
          activities =
            (if \<not> (activities \<noteq> [] \<and>
                   act_type (last activities) \<in>
                     set [STATUS_CHANGED, NOTE_ADDED, TAG_ADDED, TAG_REMOVED])
             then activities @ [Activity now UPDATED ''Lead information updated'' None]
             else activities)
      in Lead rt (lead_id lead) (date_added lead) last_contacted' activities lead_data)"

text \<open>
  The activities an update appends: what follows the history of the stored lead \<open>lead\<close>
  in the history of the new lead \<open>new\<close>.
\<close>

definition appended_to :: "lead \<Rightarrow> lead \<Rightarrow> activity list" where
  "appended_to lead new = drop (length (activity_history lead)) (activity_history new)"

text \<open>
  The parts of the appended activities, named for the proofs: the entries of the status
  step, the notes step and the two tag loops (\<open>specific_activities\<close>), and the generic
  entry of the last step. \<open>updated_lead_history\<close> below shows that the history of the new
  lead is the stored one followed by these parts in this order.
\<close>

definition status_activities :: "datetime \<Rightarrow> lead \<Rightarrow> lead_update \<Rightarrow> activity list" where
  "status_activities now lead lead_data =
     (if status lead_data \<noteq> status lead
      then [Activity now STATUS_CHANGED
              (status_changed_description (status lead) (status lead_data)) None]
      else [])"

definition note_activities :: "datetime \<Rightarrow> lead \<Rightarrow> lead_update \<Rightarrow> activity list" where
  "note_activities now lead lead_data =
     (if str_truthy (notes lead_data) \<and> notes lead_data \<noteq> notes lead
      then [Activity now NOTE_ADDED ''Note updated'' (map_option (take 100) (notes lead_data))]
      else [])"

definition tag_added_activities :: "set_iteration \<Rightarrow> datetime \<Rightarrow> lead \<Rightarrow> lead_update \<Rightarrow> activity list" where
  "tag_added_activities iter now lead lead_data =
     map (\<lambda>tag. Activity now TAG_ADDED (tag_added_description tag) None)
       (iter (set (tags lead_data) - set (tags lead)))"

definition tag_removed_activities :: "set_iteration \<Rightarrow> datetime \<Rightarrow> lead \<Rightarrow> lead_update \<Rightarrow> activity list" where
  "tag_removed_activities iter now lead lead_data =
     map (\<lambda>tag. Activity now TAG_REMOVED (tag_removed_description tag) None)
       (iter (set (tags lead) - set (tags lead_data)))"

definition specific_activities :: "set_iteration \<Rightarrow> datetime \<Rightarrow> lead \<Rightarrow> lead_update \<Rightarrow> activity list" where
  "specific_activities iter now lead lead_data =
     status_activities now lead lead_data @ note_activities now lead lead_data @
     tag_added_activities iter now lead lead_data @ tag_removed_activities iter now lead lead_data"

definition fallback_activities :: "set_iteration \<Rightarrow> datetime \<Rightarrow> lead \<Rightarrow> lead_update \<Rightarrow> activity list" where
  "fallback_activities iter now lead lead_data =
     (if \<not> (activity_history lead @ specific_activities iter now lead lead_data \<noteq> [] \<and>
             act_type (last (activity_history lead @ specific_activities iter now lead lead_data))
               \<in> set [STATUS_CHANGED, NOTE_ADDED, TAG_ADDED, TAG_REMOVED])
      then [Activity now UPDATED ''Lead information updated'' None] else [])"

definition appended_activities ::
  "set_iteration \<Rightarrow> datetime \<Rightarrow> lead \<Rightarrow> lead_update \<Rightarrow> activity list" where
  "appended_activities iter now lead lead_data =
     specific_activities iter now lead lead_data @ fallback_activities iter now lead lead_data"

section \<open>Python values\<close>

text \<open>
  The values the persistence code handles between the models and the file: \<^verbatim>\<open>None\<close>,
  strings, \<^verbatim>\<open>datetime\<close> objects, \<^verbatim>\<open>Activity\<close> objects, lists, and dictionaries with string
  keys (a list of pairs in insertion order; \<open>map_of\<close> reads a key, \<open>AList.update\<close> assigns
  one, in place when it is present and at the end when it is not). A \<^verbatim>\<open>str\<close>-based enum
  member is written to JSON as its value, so \<^verbatim>\<open>model_dump\<close> yields it as a string.
\<close>

datatype pyval =
    PNone
  | PStr string
  | PDatetime datetime
  | PActivity activity
  | PList "pyval list"
  | PDict "(string \<times> pyval) list"

text \<open>
  A loop \<^verbatim>\<open>for x in xs: out.append(f(x))\<close>: the results in order, or the first exception.
\<close>

fun for_each :: "('a \<Rightarrow> error + 'b) \<Rightarrow> 'a list \<Rightarrow> error + 'b list" where
  "for_each f [] = Inr []"
| "for_each f (x # xs) =
     (case f x of
        Inl e \<Rightarrow> Inl e
      | Inr y \<Rightarrow> (case for_each f xs of Inl e \<Rightarrow> Inl e | Inr ys \<Rightarrow> Inr (y # ys)))"

text \<open>
  What \<^verbatim>\<open>for x in v\<close> visits: the items of a list, the characters of a string, the keys
  of a dictionary; other values are not iterable here.
\<close>

fun py_iter :: "pyval \<Rightarrow> error + pyval list" where
  "py_iter (PList xs) = Inr xs"
| "py_iter (PStr s) = Inr (map (\<lambda>c. PStr [c]) s)"
| "py_iter (PDict d) = Inr (map (\<lambda>kv. PStr (fst kv)) d)"
| "py_iter v = Inl TypeError"

text \<open>The receiver of \<^verbatim>\<open>.get\<close> must be a dictionary.\<close>

fun as_dict :: "pyval \<Rightarrow> error + (string \<times> pyval) list" where
  "as_dict (PDict d) = Inr d"
| "as_dict v = Inl AttributeError"

text \<open>
  \<^verbatim>\<open>json.dump\<close> accepts \<^verbatim>\<open>None\<close>, strings, lists and dictionaries of such values, and raises
  \<^verbatim>\<open>TypeError\<close> on anything else. The file holds the value written; \<^verbatim>\<open>json.load\<close> gives it
  back.
\<close>

fun json_serializable :: "pyval \<Rightarrow> bool" where
  "json_serializable PNone = True"
| "json_serializable (PStr s) = True"
| "json_serializable (PDatetime t) = False"
| "json_serializable (PActivity a) = False"
| "json_serializable (PList xs) = list_all json_serializable xs"
| "json_serializable (PDict d) = list_all (\<lambda>kv. json_serializable (snd kv)) d"

section \<open>Model construction from keyword arguments (backend/models.py)\<close>

text \<open>
  \<^verbatim>\<open>Activity(**d)\<close> and \<^verbatim>\<open>Lead(**d)\<close>: each field is read from the dictionary and checked
  against its declared type; a missing field takes its declared default, a missing
  required field or a value of another type is a \<^verbatim>\<open>ValidationError\<close>; keys that name no
  field are ignored. The defaults are values that validation returns as they are. A
  \<^verbatim>\<open>datetime\<close> field is given a \<^verbatim>\<open>datetime\<close> object here, because \<open>load_lead\<close> below has
  parsed every date string but the empty one, which is no date. The argument of each
  function is the result of reading the key.
\<close>

fun field_str :: "pyval option \<Rightarrow> string option" where
  "field_str (Some (PStr s)) = Some s"
| "field_str v = None"

fun field_optional_str :: "string option \<Rightarrow> pyval option \<Rightarrow> string option option" where
  "field_optional_str dflt None = Some dflt"
| "field_optional_str dflt (Some PNone) = Some None"
| "field_optional_str dflt (Some (PStr s)) = Some (Some s)"
| "field_optional_str dflt (Some v) = None"

text \<open>
  \<^verbatim>\<open>linkedin_url\<close>: the default is the empty string, and the validator returns the empty
  string for \<^verbatim>\<open>None\<close> as it does for the empty string, which stands for it here.
\<close>

fun field_linkedin_url :: "pyval option \<Rightarrow> string option" where
  "field_linkedin_url None = Some []"
| "field_linkedin_url (Some PNone) = Some []"
| "field_linkedin_url (Some (PStr s)) = Some s"
| "field_linkedin_url (Some v) = None"

fun field_datetime :: "pyval option \<Rightarrow> datetime option" where
  "field_datetime (Some (PDatetime t)) = Some t"
| "field_datetime v = None"

fun field_optional_datetime :: "pyval option \<Rightarrow> datetime option option" where
  "field_optional_datetime None = Some None"
| "field_optional_datetime (Some PNone) = Some None"
| "field_optional_datetime (Some (PDatetime t)) = Some (Some t)"
| "field_optional_datetime (Some v) = None"

definition activity_type_of_value :: "string \<Rightarrow> activity_type option" where
  "activity_type_of_value s =
     (if s = ''created'' then Some CREATED
      else if s = ''updated'' then Some UPDATED
      else if s = ''status_changed'' then Some STATUS_CHANGED
      else if s = ''note_added'' then Some NOTE_ADDED
      else if s = ''tag_added'' then Some TAG_ADDED
      else if s = ''tag_removed'' then Some TAG_REMOVED
      else None)"

definition status_of_value :: "string \<Rightarrow> lead_status option" where
  "status_of_value s =
     (if s = ''not_contacted'' then Some NOT_CONTACTED
      else if s = ''contacted'' then Some CONTACTED
      else if s = ''responded'' then Some RESPONDED
      else None)"

fun field_activity_type :: "pyval option \<Rightarrow> activity_type option" where
  "field_activity_type (Some (PStr s)) = activity_type_of_value s"
| "field_activity_type v = None"

fun field_status :: "pyval option \<Rightarrow> lead_status option" where
  "field_status None = Some NOT_CONTACTED"
| "field_status (Some (PStr s)) = status_of_value s"
| "field_status (Some v) = None"

fun str_item :: "pyval \<Rightarrow> string option" where
  "str_item (PStr s) = Some s"
| "str_item v = None"

fun activity_item :: "pyval \<Rightarrow> activity option" where
  "activity_item (PActivity a) = Some a"
| "activity_item v = None"

fun field_list :: "(pyval \<Rightarrow> 'a option) \<Rightarrow> pyval option \<Rightarrow> 'a list option" where
  "field_list item None = Some []"
| "field_list item (Some (PList xs)) = those (map item xs)"
| "field_list item (Some v) = None"

text \<open>A field of another type, or a required field that is missing, raises \<^verbatim>\<open>ValidationError\<close>.\<close>

definition required :: "'a option \<Rightarrow> ('a \<Rightarrow> error + 'b) \<Rightarrow> error + 'b" where
  "required v f = (case v of None \<Rightarrow> Inl ValidationError | Some x \<Rightarrow> f x)"

definition Activity_from_dict :: "(string \<times> pyval) list \<Rightarrow> error + activity" where
  "Activity_from_dict d =
     required (field_datetime (map_of d ''timestamp'')) (\<lambda>ts.
     required (field_activity_type (map_of d ''type'')) (\<lambda>ty.
     required (field_str (map_of d ''description'')) (\<lambda>descr.
     required (field_optional_str None (map_of d ''details'')) (\<lambda>det.
     Inr (Activity ts ty descr det)))))"

text \<open>
  The keyword arguments of the base class as values of the declared types, and
  \<^verbatim>\<open>Lead(**d)\<close>: the typed arguments are validated by \<open>Lead\<close> as in every other call.
\<close>

definition LeadBase_arguments :: "(string \<times> pyval) list \<Rightarrow> error + lead_base" where
  "LeadBase_arguments d =
     required (field_str (map_of d ''company_name'')) (\<lambda>cn.
     required (field_str (map_of d ''contact_name'')) (\<lambda>pn.
     required (field_str (map_of d ''title'')) (\<lambda>ti.
     required (field_str (map_of d ''email'')) (\<lambda>em.
     required (field_linkedin_url (map_of d ''linkedin_url'')) (\<lambda>li.
     required (field_status (map_of d ''status'')) (\<lambda>st.
     required (field_optional_str (Some []) (map_of d ''notes'')) (\<lambda>no.
     required (field_list str_item (map_of d ''tags'')) (\<lambda>tg.
     Inr \<lparr>company_name = cn, contact_name = pn, title = ti, email = em,
          linkedin_url = li, status = st, notes = no, tags = tg\<rparr>))))))))"

definition Lead_from_dict :: "runtime \<Rightarrow> (string \<times> pyval) list \<Rightarrow> error + lead" where
  "Lead_from_dict rt d =
     and_then (LeadBase_arguments d) (\<lambda>kwargs.
     required (field_str (map_of d ''id'')) (\<lambda>i.
     required (field_datetime (map_of d ''date_added'')) (\<lambda>da.
     required (field_optional_datetime (map_of d ''last_contacted'')) (\<lambda>lc.
     required (field_list activity_item (map_of d ''activity_history'')) (\<lambda>ah.
     Lead rt i da lc ah kwargs)))))"

text \<open>\<^verbatim>\<open>model_dump()\<close>: the fields in declaration order, those of the base class first.\<close>

fun optional_str_value :: "string option \<Rightarrow> pyval" where
  "optional_str_value None = PNone"
| "optional_str_value (Some s) = PStr s"

definition activity_model_dump :: "activity \<Rightarrow> (string \<times> pyval) list" where
  "activity_model_dump a =
     [(''timestamp'', PDatetime (timestamp a)),
      (''type'', PStr (activity_type_value (act_type a))),
      (''description'', PStr (description a)),
      (''details'', optional_str_value (details a))]"

definition lead_model_dump :: "lead \<Rightarrow> (string \<times> pyval) list" where
  "lead_model_dump l =
     [(''company_name'', PStr (company_name l)),
      (''contact_name'', PStr (contact_name l)),
      (''title'', PStr (title l)),
      (''email'', PStr (email l)),
      (''linkedin_url'', PStr (linkedin_url l)),
      (''status'', PStr (status_value (status l))),
      (''notes'', optional_str_value (notes l)),
      (''tags'', PList (map PStr (tags l))),
      (''id'', PStr (lead_id l)),
      (''date_added'', PDatetime (date_added l)),
      (''last_contacted'', (case last_contacted l of None \<Rightarrow> PNone | Some t \<Rightarrow> PDatetime t)),
      (''activity_history'', PList (map (\<lambda>a. PDict (activity_model_dump a)) (activity_history l)))]"

section \<open>Persistence (load_leads and save_leads)\<close>

text \<open>
  The state is the content of \<^verbatim>\<open>leads.json\<close>: \<open>None\<close> when the file is absent, otherwise
  the JSON value it holds.
\<close>

type_synonym storage = "pyval option"

definition ensure_data_file_exists :: "storage \<Rightarrow> storage" where
  "ensure_data_file_exists file =
     (case file of None \<Rightarrow> Some (PDict [(''leads'', PList [])]) | Some doc \<Rightarrow> Some doc)"

text \<open>
  The dictionary \<^verbatim>\<open>{**activity.model_dump(), "timestamp": ...}\<close> of one activity and the
  dictionary of one lead (lines 95 to 106), whose three later keys replace the values of
  \<^verbatim>\<open>model_dump()\<close>. A \<^verbatim>\<open>datetime\<close> object is always true, so \<^verbatim>\<open>last_contacted\<close> is written
  as \<^verbatim>\<open>None\<close> exactly when it is \<^verbatim>\<open>None\<close>.
\<close>

definition activity_entry :: "runtime \<Rightarrow> activity \<Rightarrow> (string \<times> pyval) list" where
  "activity_entry rt a =
     AList.update ''timestamp'' (PStr (isoformat rt (timestamp a))) (activity_model_dump a)"

definition lead_entry :: "runtime \<Rightarrow> lead \<Rightarrow> (string \<times> pyval) list" where
  "lead_entry rt l =
     AList.update ''activity_history''
       (PList (map (\<lambda>a. PDict (activity_entry rt a)) (activity_history l)))
       (AList.update ''last_contacted''
          (case last_contacted l of Some t \<Rightarrow> PStr (isoformat rt t) | None \<Rightarrow> PNone)
          (AList.update ''date_added'' (PStr (isoformat rt (date_added l)))
             (lead_model_dump l)))"

definition leads_document :: "runtime \<Rightarrow> lead list \<Rightarrow> pyval" where
  "leads_document rt leads = PDict [(''leads'', PList (map (\<lambda>l. PDict (lead_entry rt l)) leads))]"

text \<open>
  \<open>save_leads\<close>: the document is written to a temporary file that then replaces
  \<^verbatim>\<open>leads.json\<close>; when \<^verbatim>\<open>json.dump\<close> raises, the temporary file is removed and
  \<^verbatim>\<open>leads.json\<close> stays as it is.
\<close>

definition save_leads :: "runtime \<Rightarrow> lead list \<Rightarrow> storage \<Rightarrow> storage \<times> (error + unit)" where
  "save_leads rt leads file =
     (let file = ensure_data_file_exists file;
          leads_data = leads_document rt leads
      in if json_serializable leads_data then (Some leads_data, Inr ())
         else (file, Inl TypeError))"

text \<open>
  Lines 55 to 62: a string under \<^verbatim>\<open>date_added\<close> is parsed; a non-empty string under
  \<^verbatim>\<open>last_contacted\<close> is parsed.
\<close>

definition parse_date_added ::
  "runtime \<Rightarrow> (string \<times> pyval) list \<Rightarrow> error + (string \<times> pyval) list" where
  "parse_date_added rt lead_data =
     (case map_of lead_data ''date_added'' of
        Some (PStr s) \<Rightarrow>
          (case fromisoformat rt s of
             None \<Rightarrow> Inl ValueError
           | Some t \<Rightarrow> Inr (AList.update ''date_added'' (PDatetime t) lead_data))
      | _ \<Rightarrow> Inr lead_data)"

definition parse_last_contacted ::
  "runtime \<Rightarrow> (string \<times> pyval) list \<Rightarrow> error + (string \<times> pyval) list" where
  "parse_last_contacted rt lead_data =
     (case map_of lead_data ''last_contacted'' of
        Some (PStr s) \<Rightarrow>
          (if s \<noteq> []
           then (case fromisoformat rt s of
                   None \<Rightarrow> Inl ValueError
                 | Some t \<Rightarrow> Inr (AList.update ''last_contacted'' (PDatetime t) lead_data))
           else Inr lead_data)
      | _ \<Rightarrow> Inr lead_data)"

text \<open>Lines 67 to 72: one pass of the loop over the stored activities.\<close>

definition load_activity :: "runtime \<Rightarrow> pyval \<Rightarrow> error + pyval" where
  "load_activity rt v =
     and_then (as_dict v) (\<lambda>activity_data.
     and_then
       (case map_of activity_data ''timestamp'' of
          Some (PStr s) \<Rightarrow>
            (case fromisoformat rt s of
               None \<Rightarrow> Inl ValueError
             | Some t \<Rightarrow> Inr (AList.update ''timestamp'' (PDatetime t) activity_data))
        | _ \<Rightarrow> Inr activity_data) (\<lambda>activity_data.
     and_then (Activity_from_dict activity_data) (\<lambda>a. Inr (PActivity a))))"

text \<open>Lines 65 to 73.\<close>

definition parse_activity_history ::
  "runtime \<Rightarrow> (string \<times> pyval) list \<Rightarrow> error + (string \<times> pyval) list" where
  "parse_activity_history rt lead_data =
     (case map_of lead_data ''activity_history'' of
        None \<Rightarrow> Inr lead_data
      | Some v \<Rightarrow>
          and_then (py_iter v) (\<lambda>items.
          and_then (for_each (load_activity rt) items) (\<lambda>activities.
          Inr (AList.update ''activity_history'' (PList activities) lead_data))))"

text \<open>Lines 53 to 75: one pass of the loop over the stored leads.\<close>

definition load_lead :: "runtime \<Rightarrow> pyval \<Rightarrow> error + lead" where
  "load_lead rt v =
     and_then (as_dict v) (\<lambda>lead_data.
     and_then (parse_date_added rt lead_data) (\<lambda>lead_data.
     and_then (parse_last_contacted rt lead_data) (\<lambda>lead_data.
     and_then (parse_activity_history rt lead_data) (\<lambda>lead_data.
     Lead_from_dict rt lead_data))))"

definition load_leads :: "runtime \<Rightarrow> storage \<Rightarrow> storage \<times> (error + lead list)" where
  "load_leads rt file =
     (let file = ensure_data_file_exists file
      in (file,
          case file of
            None \<Rightarrow> Inl FileNotFoundError
          | Some data \<Rightarrow>
              and_then (as_dict data) (\<lambda>d.
              and_then (py_iter (case map_of d ''leads'' of None \<Rightarrow> PList [] | Some v \<Rightarrow> v))
                (for_each (load_lead rt)))))"

text \<open>
  The contract of the two date functions on one value: \<^verbatim>\<open>fromisoformat\<close> reads back
  what \<^verbatim>\<open>isoformat\<close> prints, and the printed string is not empty. \<open>lead_timestamps\<close>
  lists the dates a lead holds.
\<close>

definition reads_back :: "runtime \<Rightarrow> datetime \<Rightarrow> bool" where
  "reads_back rt t \<longleftrightarrow> fromisoformat rt (isoformat rt t) = Some t \<and> isoformat rt t \<noteq> []"

definition lead_timestamps :: "lead \<Rightarrow> datetime list" where
  "lead_timestamps l =
     date_added l # (case last_contacted l of None \<Rightarrow> [] | Some t \<Rightarrow> [t]) @
     map timestamp (activity_history l)"

text \<open>
  A lead that the constructor accepts as it is: \<^verbatim>\<open>Lead\<close>, called with the fields of the
  lead, returns the lead. The leads that \<open>create_lead\<close> and \<open>update_lead\<close> store have
  passed the constructor once.
\<close>

definition keeps_fields :: "runtime \<Rightarrow> lead \<Rightarrow> bool" where
  "keeps_fields rt l \<longleftrightarrow>
     Lead rt (lead_id l) (date_added l) (last_contacted l) (activity_history l) l = Inr l"

section \<open>Operations on the collection (backend/database.py)\<close>

text \<open>
  \<open>create_lead\<close>: \<open>now\<close> is the reading of the clock and \<open>uuid\<close> the string of the fresh
  identifier. When the constructor raises, nothing is saved.
\<close>

definition create_lead ::
  "runtime \<Rightarrow> datetime \<Rightarrow> string \<Rightarrow> lead_create \<Rightarrow> storage \<Rightarrow> storage \<times> (error + lead)" where
  "create_lead rt now uuid lead_data file =
     (case load_leads rt file of
        (file, Inl e) \<Rightarrow> (file, Inl e)
      | (file, Inr leads) \<Rightarrow>
          (let initial_activity =
                 Activity now CREATED (''Lead created for '' @ contact_name lead_data) None
           in case Lead rt uuid now None [initial_activity] lead_data of
                Inl e \<Rightarrow> (file, Inl e)
              | Inr new_lead \<Rightarrow>
                  (let leads = leads @ [new_lead]
                   in case save_leads rt leads file of
                        (file, Inl e) \<Rightarrow> (file, Inl e)
                      | (file, Inr u) \<Rightarrow> (file, Inr new_lead))))"

text \<open>
  The loop of \<open>update_lead\<close> over \<^verbatim>\<open>enumerate(leads)\<close>: \<open>None\<close> when the loop ends without
  a match; at the first lead with the identifier, the exception of \<open>updated_lead\<close>, or the
  list with that position replaced and the new lead.
\<close>

fun update_loop ::
  "runtime \<Rightarrow> datetime \<Rightarrow> string \<Rightarrow> lead_update \<Rightarrow> lead list \<Rightarrow> nat \<Rightarrow> lead list \<Rightarrow>
   (error + lead list \<times> lead) option" where
  "update_loop rt now lid lead_data leads i [] = None"
| "update_loop rt now lid lead_data leads i (lead # rest) =
     (if lead_id lead = lid
      then Some (and_then (updated_lead rt now lead lead_data)
                   (\<lambda>updated. Inr (leads[i := updated], updated)))
      else update_loop rt now lid lead_data leads (Suc i) rest)"

definition update_lead ::
  "runtime \<Rightarrow> datetime \<Rightarrow> string \<Rightarrow> lead_update \<Rightarrow> storage \<Rightarrow> storage \<times> (error + lead option)" where
  "update_lead rt now lid lead_data file =
     (case load_leads rt file of
        (file, Inl e) \<Rightarrow> (file, Inl e)
      | (file, Inr leads) \<Rightarrow>
          (case update_loop rt now lid lead_data leads 0 leads of
             None \<Rightarrow> (file, Inr None)
           | Some (Inl e) \<Rightarrow> (file, Inl e)
           | Some (Inr (leads, updated)) \<Rightarrow>
               (case save_leads rt leads file of
                  (file, Inl e) \<Rightarrow> (file, Inl e)
                | (file, Inr u) \<Rightarrow> (file, Inr (Some updated)))))"

definition delete_lead :: "runtime \<Rightarrow> string \<Rightarrow> storage \<Rightarrow> storage \<times> (error + bool)" where
  "delete_lead rt lid file =
     (case load_leads rt file of
        (file, Inl e) \<Rightarrow> (file, Inl e)
      | (file, Inr leads) \<Rightarrow>
          (let initial_count = length leads;
               leads = filter (\<lambda>lead. lead_id lead \<noteq> lid) leads
           in if length leads < initial_count
              then (case save_leads rt leads file of
                      (file, Inl e) \<Rightarrow> (file, Inl e)
                    | (file, Inr u) \<Rightarrow> (file, Inr True))
              else (file, Inr False)))"

text \<open>
  \<open>get_stats\<close>. The two dictionaries of counts are lists of pairs in insertion order;
  \<^verbatim>\<open>status_counts[k] += 1\<close> raises \<^verbatim>\<open>KeyError\<close> on a key that is absent. \<^verbatim>\<open>sorted\<close> with
  \<^verbatim>\<open>reverse=True\<close> is a stable sort of the reversed list, reversed again. The result is
  a record; an entry of \<^verbatim>\<open>top_companies\<close> is the pair of its company and its count.
\<close>

record stats =
  total :: nat
  by_status :: "(string \<times> nat) list"
  top_companies :: "(string \<times> nat) list"

fun count_leads ::
  "lead list \<Rightarrow> (string \<times> nat) list \<Rightarrow> (string \<times> nat) list \<Rightarrow>
   error + ((string \<times> nat) list \<times> (string \<times> nat) list)" where
  "count_leads [] status_counts company_counts = Inr (status_counts, company_counts)"
| "count_leads (lead # rest) status_counts company_counts =
     (case map_of status_counts (status_value (status lead)) of
        None \<Rightarrow> Inl KeyError
      | Some n \<Rightarrow>
          count_leads rest
            (AList.update (status_value (status lead)) (n + 1) status_counts)
            (AList.update (company_name lead)
               ((case map_of company_counts (company_name lead) of None \<Rightarrow> 0 | Some c \<Rightarrow> c) + 1)
               company_counts))"

definition sorted_reverse :: "('a \<Rightarrow> nat) \<Rightarrow> 'a list \<Rightarrow> 'a list" where
  "sorted_reverse key xs = rev (sort_key key (rev xs))"

definition get_stats :: "runtime \<Rightarrow> storage \<Rightarrow> storage \<times> (error + stats)" where
  "get_stats rt file =
     (case load_leads rt file of
        (file, Inl e) \<Rightarrow> (file, Inl e)
      | (file, Inr leads) \<Rightarrow>
          (case count_leads leads
                  [(''not_contacted'', 0), (''contacted'', 0), (''responded'', 0)] [] of
             Inl e \<Rightarrow> (file, Inl e)
           | Inr (status_counts, company_counts) \<Rightarrow>
               (file, Inr \<lparr>total = length leads, by_status = status_counts,
                           top_companies = take 5 (sorted_reverse snd company_counts)\<rparr>)))"

text \<open>
  The position of the first lead of a company in the collection, and the order of
  \<^verbatim>\<open>top_companies\<close>: the larger count first, and among equal counts the company that
  appears first in the collection.
\<close>

definition first_seen :: "lead list \<Rightarrow> string \<Rightarrow> nat" where
  "first_seen leads c = length (takeWhile (\<lambda>l. company_name l \<noteq> c) leads)"

definition ranks_before :: "lead list \<Rightarrow> string \<times> nat \<Rightarrow> string \<times> nat \<Rightarrow> bool" where
  "ranks_before leads a b \<longleftrightarrow>
     snd b < snd a \<or> (snd a = snd b \<and> first_seen leads (fst a) < first_seen leads (fst b))"

text \<open>
  The number of leads of a company and of a status, and the companies of the collection,
  each once, in the order of their first leads.
\<close>

definition company_count :: "lead list \<Rightarrow> string \<Rightarrow> nat" where
  "company_count leads c = length (filter (\<lambda>l. company_name l = c) leads)"

definition status_count :: "lead list \<Rightarrow> lead_status \<Rightarrow> nat" where
  "status_count leads s = length (filter (\<lambda>l. status l = s) leads)"

definition companies_in_order :: "lead list \<Rightarrow> string list" where
  "companies_in_order leads = rev (remdups (rev (map company_name leads)))"

section \<open>Example values\<close>

text \<open>
  Concrete inputs for the closed theorems: an iteration order given by a reference list,
  a clock, the field set and the lead of Jane Doe before and after a first status update,
  and a second lead.
\<close>

definition listed_order :: "string list \<Rightarrow> set_iteration" where
  "listed_order universe S = filter (\<lambda>tag. tag \<in> S) (remdups universe)"

definition clock :: "nat \<Rightarrow> datetime" where
  "clock n = Datetime 2024 1 (Suc n) 9 0 0 0"

definition jane_fields :: lead_base where
  "jane_fields =
     \<lparr>company_name = ''Acme'', contact_name = ''Jane Doe'', title = ''CTO'',
      email = ''jane@acme.com'', linkedin_url = [], status = NOT_CONTACTED,
      notes = Some [], tags = [''a'', ''b'']\<rparr>"

definition jane_lead :: lead where
  "jane_lead =
     make_lead ''lead-1'' (clock 0) None
       [Activity (clock 0) CREATED ''Lead created for Jane Doe'' None] jane_fields"

definition jane_contacted :: lead where
  "jane_contacted =
     make_lead ''lead-1'' (clock 0) (Some (clock 1))
       [Activity (clock 0) CREATED ''Lead created for Jane Doe'' None,
        Activity (clock 1) STATUS_CHANGED
          (status_changed_description NOT_CONTACTED CONTACTED) None]
       (jane_fields\<lparr>status := CONTACTED\<rparr>)"

definition omar_lead :: lead where
  "omar_lead =
     make_lead ''lead-2'' (clock 0) None
       [Activity (clock 0) CREATED ''Lead created for Omar Diaz'' None]
       (jane_fields\<lparr>company_name := ''Globex'', contact_name := ''Omar Diaz''\<rparr>)"

text \<open>
  A runtime for the examples: the date functions, the e-mail pattern and lower-casing are
  tables for the values of the examples, and stripping removes the blanks at both ends.
\<close>

definition strip_blanks :: "string \<Rightarrow> string" where
  "strip_blanks s =
     rev (dropWhile (\<lambda>c. c = CHR '' '') (rev (dropWhile (\<lambda>c. c = CHR '' '') s)))"

definition example_runtime :: runtime where
  "example_runtime =
     \<lparr>isoformat =
        (\<lambda>t. if t = clock 0 then ''2024-01-01T09:00:00''
             else if t = clock 1 then ''2024-01-02T09:00:00'' else []),
      fromisoformat =
        (\<lambda>s. if s = ''2024-01-01T09:00:00'' then Some (clock 0)
             else if s = ''2024-01-02T09:00:00'' then Some (clock 1) else None),
      set_order = listed_order [''c'', ''a'', ''b''],
      email_pattern_matches = (\<lambda>s. s = ''jane@acme.com'' \<or> s = ''Jane@Acme.com''),
      str_lower = (\<lambda>s. if s = ''Jane@Acme.com'' then ''jane@acme.com'' else s),
      str_strip = strip_blanks\<rparr>"

text \<open>
  A URL of 493 characters without a scheme, the field set of Jane Doe with this URL as
  it is sent to the program, and the field set that validation makes of it: the URL with
  its prefix has 501 characters.
\<close>

definition long_url :: string where
  "long_url = replicate 493 CHR ''x''"

definition long_input :: lead_base where
  "long_input = jane_fields\<lparr>linkedin_url := long_url\<rparr>"

definition long_fields :: lead_base where
  "long_fields = jane_fields\<lparr>linkedin_url := ''https://'' @ long_url\<rparr>"

text \<open>
  The lead that the constructor returns for the field set with the long URL as it is
  sent: a \<^verbatim>\<open>Lead\<close> object whose URL has 501 characters.
\<close>

definition long_lead :: lead where
  "long_lead =
     make_lead ''lead-9'' (clock 0) None
       [Activity (clock 0) CREATED ''Lead created for Jane Doe'' None] long_fields"

section \<open>Properties of validation and construction\<close>

lemma and_then_Inr [simp]: "and_then (Inr x) f = f x"
  by (simp add: and_then_def)

lemma and_then_Inl [simp]: "and_then (Inl e) f = Inl e"
  by (simp add: and_then_def)

lemma act_type_Activity [simp]: "act_type (Activity ts ty d x) = ty"
  by (simp add: Activity_def)

lemma description_Activity [simp]: "description (Activity ts ty d x) = d"
  by (simp add: Activity_def)

lemma details_Activity [simp]: "details (Activity ts ty d x) = x"
  by (simp add: Activity_def)

lemma timestamp_Activity [simp]: "timestamp (Activity ts ty d x) = ts"
  by (simp add: Activity_def)

lemma make_lead_own_fields [simp]:
  "lead_id (make_lead i da lc ah base) = i \<and> date_added (make_lead i da lc ah base) = da \<and>
   last_contacted (make_lead i da lc ah base) = lc \<and>
   activity_history (make_lead i da lc ah base) = ah"
  by (simp add: make_lead_def)

lemma make_lead_base_fields [simp]:
  "company_name (make_lead i da lc ah base) = company_name base \<and>
   contact_name (make_lead i da lc ah base) = contact_name base \<and>
   title (make_lead i da lc ah base) = title base \<and>
   email (make_lead i da lc ah base) = email base \<and>
   linkedin_url (make_lead i da lc ah base) = linkedin_url base \<and>
   status (make_lead i da lc ah base) = status base \<and>
   notes (make_lead i da lc ah base) = notes base \<and>
   tags (make_lead i da lc ah base) = tags base"
  by (simp add: make_lead_def)

text \<open>What the constructor returns when it returns, and one way for it to raise.\<close>

lemma Lead_Inr:
  assumes "Lead rt i da lc ah kwargs = Inr new"
  shows "new = make_lead i da lc ah
           \<lparr>company_name = company_name kwargs, contact_name = contact_name kwargs,
            title = title kwargs, email = str_lower rt (email kwargs),
            linkedin_url = validate_linkedin_url rt (linkedin_url kwargs),
            status = status kwargs, notes = notes kwargs, tags = tags kwargs\<rparr>"
  using assms by (auto simp: Lead_def LeadBase_def split: if_splits)

lemma Lead_Inr_fields:
  assumes "Lead rt i da lc ah kwargs = Inr new"
  shows "lead_id new = i \<and> date_added new = da \<and> last_contacted new = lc \<and>
         activity_history new = ah \<and> status new = status kwargs \<and>
         notes new = notes kwargs \<and> tags new = tags kwargs \<and>
         company_name new = company_name kwargs \<and> contact_name new = contact_name kwargs \<and>
         title new = title kwargs"
  unfolding Lead_Inr [OF assms] by simp

lemma Lead_error: "Lead rt i da lc ah kwargs = Inl e \<Longrightarrow> e = ValidationError"
  by (auto simp: Lead_def LeadBase_def split: if_splits)

lemma Lead_long_url:
  "500 < length (linkedin_url kwargs) \<Longrightarrow> Lead rt i da lc ah kwargs = Inl ValidationError"
  by (simp add: Lead_def LeadBase_def)

section \<open>Properties of the history engine\<close>

lemma foldl_append_each: "foldl (\<lambda>acts x. acts @ [f x]) acc xs = acc @ map f xs"
  by (induction xs arbitrary: acc) simp_all

lemma if_append: "(if c then xs @ ys else xs) = xs @ (if c then ys else [])"
  by simp

lemma appended_activities_eq:
  "appended_activities iter now lead lead_data =
     specific_activities iter now lead lead_data @ fallback_activities iter now lead lead_data"
  by (simp add: appended_activities_def)

lemma updated_lead_eq:
  "updated_lead rt now lead lead_data =
     Lead rt (lead_id lead) (date_added lead)
       (if status lead_data \<noteq> status lead
        then (if status_value (status lead_data) \<in> set [''contacted'', ''responded'']
              then Some now else last_contacted lead)
        else last_contacted lead)
       (activity_history lead @ appended_activities (set_order rt) now lead lead_data)
       lead_data"
  unfolding updated_lead_def Let_def appended_activities_def specific_activities_def
      fallback_activities_def status_activities_def note_activities_def
      tag_added_activities_def tag_removed_activities_def
  apply (simp only: foldl_append_each if_append)
  apply (simp only: append_assoc)
  done

lemma updated_lead_history:
  "updated_lead rt now lead lead_data = Inr new \<Longrightarrow>
   activity_history new =
     activity_history lead @ appended_activities (set_order rt) now lead lead_data"
  unfolding updated_lead_eq by (drule Lead_Inr_fields) blast

lemma appended_to_updated_lead:
  "updated_lead rt now lead lead_data = Inr new \<Longrightarrow>
   appended_to lead new = appended_activities (set_order rt) now lead lead_data"
  by (simp add: appended_to_def updated_lead_history)

lemma updated_lead_error: "updated_lead rt now lead lead_data = Inl e \<Longrightarrow> e = ValidationError"
  unfolding updated_lead_eq by (rule Lead_error)

lemma updated_lead_long_url:
  "500 < length (linkedin_url lead_data) \<Longrightarrow>
   updated_lead rt now lead lead_data = Inl ValidationError"
  unfolding updated_lead_eq by (rule Lead_long_url)

lemma filter_status_activities:
  "filter (\<lambda>a. act_type a = ty) (status_activities now lead lead_data) =
     (if ty = STATUS_CHANGED then status_activities now lead lead_data else [])"
  by (simp add: status_activities_def)

lemma filter_note_activities:
  "filter (\<lambda>a. act_type a = ty) (note_activities now lead lead_data) =
     (if ty = NOTE_ADDED then note_activities now lead lead_data else [])"
  by (simp add: note_activities_def)

lemma filter_tag_added_activities:
  "filter (\<lambda>a. act_type a = ty) (tag_added_activities iter now lead lead_data) =
     (if ty = TAG_ADDED then tag_added_activities iter now lead lead_data else [])"
  by (simp add: tag_added_activities_def filter_map comp_def)

lemma filter_tag_removed_activities:
  "filter (\<lambda>a. act_type a = ty) (tag_removed_activities iter now lead lead_data) =
     (if ty = TAG_REMOVED then tag_removed_activities iter now lead lead_data else [])"
  by (simp add: tag_removed_activities_def filter_map comp_def)

lemma filter_fallback_activities:
  "filter (\<lambda>a. act_type a = ty) (fallback_activities iter now lead lead_data) =
     (if ty = UPDATED then fallback_activities iter now lead lead_data else [])"
  by (simp add: fallback_activities_def)

lemmas filter_parts = filter_status_activities filter_note_activities
  filter_tag_added_activities filter_tag_removed_activities filter_fallback_activities

lemma filter_appended:
  "filter (\<lambda>a. act_type a = ty) (appended_activities iter now lead lead_data) =
     (case ty of
        CREATED \<Rightarrow> []
      | UPDATED \<Rightarrow> fallback_activities iter now lead lead_data
      | STATUS_CHANGED \<Rightarrow> status_activities now lead lead_data
      | NOTE_ADDED \<Rightarrow> note_activities now lead lead_data
      | TAG_ADDED \<Rightarrow> tag_added_activities iter now lead lead_data
      | TAG_REMOVED \<Rightarrow> tag_removed_activities iter now lead lead_data)"
  by (cases ty) (simp_all add: appended_activities_eq specific_activities_def filter_parts)

lemma status_change_appended:
  "length (filter (\<lambda>a. act_type a = STATUS_CHANGED)
       (appended_activities iter now lead lead_data)) =
     (if status lead_data \<noteq> status lead then 1 else 0)"
  by (simp add: filter_appended status_activities_def)

lemma last_contacted_updated_lead:
  assumes "updated_lead rt now lead lead_data = Inr new"
  shows "last_contacted new =
     (if status lead_data \<noteq> status lead \<and>
         (status lead_data = CONTACTED \<or> status lead_data = RESPONDED)
      then Some now else last_contacted lead)"
proof -
  from assms [unfolded updated_lead_eq] have "last_contacted new =
      (if status lead_data \<noteq> status lead
       then (if status_value (status lead_data) \<in> set [''contacted'', ''responded'']
             then Some now else last_contacted lead)
       else last_contacted lead)"
    by (drule_tac Lead_Inr_fields) blast
  then show ?thesis
    by (cases "status lead_data") simp_all
qed

text \<open>
  Claim C2, for an update that returns a lead. An update whose status differs from the
  stored one appends exactly one \<open>STATUS_CHANGED\<close> activity, and the new \<open>last_contacted\<close>
  is the time of the update when the new status is \<open>CONTACTED\<close> or \<open>RESPONDED\<close> and the
  stored value otherwise; an update with the same status appends no such activity and
  keeps the stored \<open>last_contacted\<close>.
\<close>

theorem status_change_tracked:
  assumes "updated_lead rt now lead lead_data = Inr new"
  shows "length (filter (\<lambda>a. act_type a = STATUS_CHANGED) (appended_to lead new)) =
           (if status lead_data \<noteq> status lead then 1 else 0) \<and>
         last_contacted new =
           (if status lead_data \<noteq> status lead \<and>
               (status lead_data = CONTACTED \<or> status lead_data = RESPONDED)
            then Some now else last_contacted lead)"
  using last_contacted_updated_lead [OF assms]
  by (simp add: appended_to_updated_lead [OF assms] status_change_appended)

lemma tag_added_description_inject [simp]:
  "tag_added_description a = tag_added_description b \<longleftrightarrow> a = b"
  by (simp add: tag_added_description_def)

lemma tag_removed_description_inject [simp]:
  "tag_removed_description a = tag_removed_description b \<longleftrightarrow> a = b"
  by (simp add: tag_removed_description_def)

lemma length_filter_eq_distinct:
  "distinct xs \<Longrightarrow> x \<in> set xs \<Longrightarrow> length (filter (\<lambda>t. t = x) xs) = 1"
  by (induction xs) (auto simp: filter_empty_conv)

lemma filter_conj_type:
  "filter (\<lambda>a. act_type a = ty \<and> P a) xs = filter P (filter (\<lambda>a. act_type a = ty) xs)"
  by (simp add: conj_commute)

lemma one_activity_per_added_tag:
  assumes "iterates iter (set (tags lead_data) - set (tags lead))"
    and "tag \<in> set (tags lead_data) - set (tags lead)"
  shows "length (filter (\<lambda>a. act_type a = TAG_ADDED \<and> description a = tag_added_description tag)
           (appended_activities iter now lead lead_data)) = 1"
proof -
  have "filter (\<lambda>a. act_type a = TAG_ADDED \<and> description a = tag_added_description tag)
          (appended_activities iter now lead lead_data) =
        map (\<lambda>tag. Activity now TAG_ADDED (tag_added_description tag) None)
          (filter (\<lambda>t. t = tag) (iter (set (tags lead_data) - set (tags lead))))"
    by (simp only: filter_conj_type filter_appended activity_type.case
        tag_added_activities_def filter_map comp_def description_Activity
        tag_added_description_inject)
  then show ?thesis
    using assms by (simp add: iterates_def length_filter_eq_distinct)
qed

lemma one_activity_per_removed_tag:
  assumes "iterates iter (set (tags lead) - set (tags lead_data))"
    and "tag \<in> set (tags lead) - set (tags lead_data)"
  shows "length (filter (\<lambda>a. act_type a = TAG_REMOVED \<and> description a = tag_removed_description tag)
           (appended_activities iter now lead lead_data)) = 1"
proof -
  have "filter (\<lambda>a. act_type a = TAG_REMOVED \<and> description a = tag_removed_description tag)
          (appended_activities iter now lead lead_data) =
        map (\<lambda>tag. Activity now TAG_REMOVED (tag_removed_description tag) None)
          (filter (\<lambda>t. t = tag) (iter (set (tags lead) - set (tags lead_data))))"
    by (simp only: filter_conj_type filter_appended activity_type.case
        tag_removed_activities_def filter_map comp_def description_Activity
        tag_removed_description_inject)
  then show ?thesis
    using assms by (simp add: iterates_def length_filter_eq_distinct)
qed

lemma count_tag_added:
  "iterates iter (set (tags lead_data) - set (tags lead)) \<Longrightarrow>
   length (filter (\<lambda>a. act_type a = TAG_ADDED) (appended_activities iter now lead lead_data)) =
     card (set (tags lead_data) - set (tags lead))"
  by (simp add: filter_appended tag_added_activities_def iterates_def)
    (metis distinct_card)

lemma count_tag_removed:
  "iterates iter (set (tags lead) - set (tags lead_data)) \<Longrightarrow>
   length (filter (\<lambda>a. act_type a = TAG_REMOVED) (appended_activities iter now lead lead_data)) =
     card (set (tags lead) - set (tags lead_data))"
  by (simp add: filter_appended tag_removed_activities_def iterates_def)
    (metis distinct_card)

lemma split_order:
  assumes "\<forall>a\<in>set ps. \<not> g a" and "\<forall>a\<in>set qs. \<not> f a"
    and "i < length (ps @ qs)" and "j < length (ps @ qs)"
    and "f ((ps @ qs) ! i)" and "g ((ps @ qs) ! j)"
  shows "i < j"
proof -
  have "i < length ps"
  proof (rule ccontr)
    assume "\<not> i < length ps"
    with assms(3,5) have "f (qs ! (i - length ps))" and "i - length ps < length qs"
      by (simp_all add: nth_append)
    with assms(2) show False using nth_mem by blast
  qed
  moreover have "\<not> j < length ps"
  proof
    assume "j < length ps"
    with assms(6) have "g (ps ! j)" by (simp add: nth_append)
    with assms(1) \<open>j < length ps\<close> show False using nth_mem by blast
  qed
  ultimately show ?thesis by simp
qed

lemma types_before_removed:
  "\<forall>a\<in>set (status_activities now lead lead_data @ note_activities now lead lead_data @
      tag_added_activities iter now lead lead_data). \<not> act_type a = TAG_REMOVED"
  by (auto simp: status_activities_def note_activities_def tag_added_activities_def)

lemma types_from_removed:
  "\<forall>a\<in>set (tag_removed_activities iter now lead lead_data @
      fallback_activities iter now lead lead_data). \<not> act_type a = TAG_ADDED"
  by (auto simp: tag_removed_activities_def fallback_activities_def)

lemma added_before_removed:
  assumes "i < length (appended_activities iter now lead lead_data)"
    and "j < length (appended_activities iter now lead lead_data)"
    and "act_type (appended_activities iter now lead lead_data ! i) = TAG_ADDED"
    and "act_type (appended_activities iter now lead lead_data ! j) = TAG_REMOVED"
  shows "i < j"
proof -
  have eq: "appended_activities iter now lead lead_data =
      (status_activities now lead lead_data @ note_activities now lead lead_data @
         tag_added_activities iter now lead lead_data) @
      (tag_removed_activities iter now lead lead_data @
         fallback_activities iter now lead lead_data)"
    by (simp add: appended_activities_eq specific_activities_def)
  note before = types_before_removed [of now lead lead_data iter]
  note after = types_from_removed [of iter now lead lead_data]
  show ?thesis
    using split_order [OF before after, of i j] assms unfolding eq by blast
qed

lemma no_fallback_when_tags_change:
  assumes "iterates iter (set (tags lead_data) - set (tags lead))"
    and "iterates iter (set (tags lead) - set (tags lead_data))"
    and "set (tags lead_data) \<noteq> set (tags lead)"
  shows "fallback_activities iter now lead lead_data = []"
proof (cases "set (tags lead) - set (tags lead_data) = {}")
  case False
  with assms(2) have "iter (set (tags lead) - set (tags lead_data)) \<noteq> []"
    by (auto simp: iterates_def)
  then have ne: "tag_removed_activities iter now lead lead_data \<noteq> []"
    by (simp add: tag_removed_activities_def)
  then have "act_type (last (tag_removed_activities iter now lead lead_data)) = TAG_REMOVED"
    by (simp add: tag_removed_activities_def last_map)
  with ne show ?thesis
    by (simp add: fallback_activities_def specific_activities_def)
next
  case True
  with assms(3) have "set (tags lead_data) - set (tags lead) \<noteq> {}" by blast
  with assms(1) have "iter (set (tags lead_data) - set (tags lead)) \<noteq> []"
    by (auto simp: iterates_def)
  then have ne: "tag_added_activities iter now lead lead_data \<noteq> []"
    by (simp add: tag_added_activities_def)
  then have ty: "act_type (last (tag_added_activities iter now lead lead_data)) = TAG_ADDED"
    by (simp add: tag_added_activities_def last_map)
  have "iter (set (tags lead) - set (tags lead_data)) = []"
    using assms(2) unfolding iterates_def True by simp
  then have "tag_removed_activities iter now lead lead_data = []"
    by (simp add: tag_removed_activities_def)
  with ne ty show ?thesis
    by (simp add: fallback_activities_def specific_activities_def)
qed

lemma no_updated_without_fallback:
  "fallback_activities iter now lead lead_data = [] \<Longrightarrow>
   \<forall>a\<in>set (appended_activities iter now lead lead_data). act_type a \<noteq> UPDATED"
  using filter_appended [of UPDATED iter now lead lead_data]
  by (simp add: filter_empty_conv)

lemma tag_changes_appended:
  assumes "iterates iter (set (tags lead_data) - set (tags lead))"
    and "iterates iter (set (tags lead) - set (tags lead_data))"
  shows
    "(\<forall>tag \<in> set (tags lead_data) - set (tags lead).
        length (filter (\<lambda>a. act_type a = TAG_ADDED \<and> description a = tag_added_description tag)
          (appended_activities iter now lead lead_data)) = 1) \<and>
     (\<forall>tag \<in> set (tags lead) - set (tags lead_data).
        length (filter (\<lambda>a. act_type a = TAG_REMOVED \<and> description a = tag_removed_description tag)
          (appended_activities iter now lead lead_data)) = 1) \<and>
     length (filter (\<lambda>a. act_type a = TAG_ADDED) (appended_activities iter now lead lead_data)) =
       card (set (tags lead_data) - set (tags lead)) \<and>
     length (filter (\<lambda>a. act_type a = TAG_REMOVED) (appended_activities iter now lead lead_data)) =
       card (set (tags lead) - set (tags lead_data)) \<and>
     (\<forall>i j. i < length (appended_activities iter now lead lead_data) \<and>
        j < length (appended_activities iter now lead lead_data) \<and>
        act_type (appended_activities iter now lead lead_data ! i) = TAG_ADDED \<and>
        act_type (appended_activities iter now lead lead_data ! j) = TAG_REMOVED \<longrightarrow> i < j) \<and>
     (set (tags lead_data) \<noteq> set (tags lead) \<longrightarrow>
        (\<forall>a\<in>set (appended_activities iter now lead lead_data). act_type a \<noteq> UPDATED))"
  using assms one_activity_per_added_tag [OF assms(1)] one_activity_per_removed_tag [OF assms(2)]
    count_tag_added [OF assms(1)] count_tag_removed [OF assms(2)]
    added_before_removed [of _ iter now lead lead_data]
    no_updated_without_fallback [OF no_fallback_when_tags_change [OF assms]]
  by blast

lemma iterates_listed_order: "S \<subseteq> set universe \<Longrightarrow> iterates (listed_order universe) S"
  by (auto simp: iterates_def listed_order_def)

text \<open>
  Claim C3, for an update that returns a lead. When the two tag loops visit each element
  of their set once: every tag of the update that the stored lead lacks has exactly one
  \<open>TAG_ADDED\<close> activity, every stored tag that the update lacks has exactly one
  \<open>TAG_REMOVED\<close> activity, there are no other tag activities, every \<open>TAG_ADDED\<close> entry comes
  before every \<open>TAG_REMOVED\<close> entry, and an update that changes the tag set appends no
  \<open>UPDATED\<close> activity.
\<close>

theorem tag_changes_tracked:
  assumes "updated_lead rt now lead lead_data = Inr new"
    and "iterates (set_order rt) (set (tags lead_data) - set (tags lead))"
    and "iterates (set_order rt) (set (tags lead) - set (tags lead_data))"
  shows
    "(\<forall>tag \<in> set (tags lead_data) - set (tags lead).
        length (filter (\<lambda>a. act_type a = TAG_ADDED \<and> description a = tag_added_description tag)
          (appended_to lead new)) = 1) \<and>
     (\<forall>tag \<in> set (tags lead) - set (tags lead_data).
        length (filter (\<lambda>a. act_type a = TAG_REMOVED \<and> description a = tag_removed_description tag)
          (appended_to lead new)) = 1) \<and>
     length (filter (\<lambda>a. act_type a = TAG_ADDED) (appended_to lead new)) =
       card (set (tags lead_data) - set (tags lead)) \<and>
     length (filter (\<lambda>a. act_type a = TAG_REMOVED) (appended_to lead new)) =
       card (set (tags lead) - set (tags lead_data)) \<and>
     (\<forall>i j. i < length (appended_to lead new) \<and> j < length (appended_to lead new) \<and>
        act_type (appended_to lead new ! i) = TAG_ADDED \<and>
        act_type (appended_to lead new ! j) = TAG_REMOVED \<longrightarrow> i < j) \<and>
     (set (tags lead_data) \<noteq> set (tags lead) \<longrightarrow>
        (\<forall>a\<in>set (appended_to lead new). act_type a \<noteq> UPDATED))"
  unfolding appended_to_updated_lead [OF assms(1)]
  by (rule tag_changes_appended [OF assms(2,3)])

text \<open>
  What an update appends when its status, notes and tags are those of the stored lead:
  the generic entry, unless the stored history ends with an entry of one of the four
  tracked types, and then nothing.
\<close>

lemma untracked_update_appended:
  assumes "status lead_data = status lead" and "notes lead_data = notes lead"
    and "set (tags lead_data) = set (tags lead)" and "iterates iter {}"
  shows "appended_activities iter now lead lead_data =
     (if activity_history lead \<noteq> [] \<and>
         act_type (last (activity_history lead)) \<in>
           set [STATUS_CHANGED, NOTE_ADDED, TAG_ADDED, TAG_REMOVED]
      then [] else [Activity now UPDATED ''Lead information updated'' None])"
proof -
  from assms(4) have "iter {} = []"
    by (simp add: iterates_def)
  with assms(1-3) have "specific_activities iter now lead lead_data = []"
    by (simp add: specific_activities_def status_activities_def note_activities_def
        tag_added_activities_def tag_removed_activities_def)
  then show ?thesis
    by (simp add: appended_activities_eq fallback_activities_def)
qed



lemma note_added_appended:
  "((\<exists>a\<in>set (appended_activities iter now lead lead_data). act_type a = NOTE_ADDED) \<longleftrightarrow>
      notes lead_data \<noteq> None \<and> notes lead_data \<noteq> Some [] \<and> notes lead_data \<noteq> notes lead) \<and>
   length (filter (\<lambda>a. act_type a = NOTE_ADDED) (appended_activities iter now lead lead_data)) \<le> 1 \<and>
   (\<forall>a\<in>set (appended_activities iter now lead lead_data). act_type a = NOTE_ADDED \<longrightarrow>
      (\<exists>s. notes lead_data = Some s \<and> details a = Some (take 100 s)))"
proof -
  have "filter (\<lambda>a. act_type a = NOTE_ADDED) (appended_activities iter now lead lead_data) =
      note_activities now lead lead_data"
    by (simp add: filter_appended)
  then have "set (filter (\<lambda>a. act_type a = NOTE_ADDED)
      (appended_activities iter now lead lead_data)) = set (note_activities now lead lead_data)"
    by simp
  then have mem: "a \<in> set (appended_activities iter now lead lead_data) \<and> act_type a = NOTE_ADDED \<longleftrightarrow>
      a \<in> set (note_activities now lead lead_data)" for a
    by auto
  have 1: "(\<exists>a\<in>set (appended_activities iter now lead lead_data). act_type a = NOTE_ADDED) \<longleftrightarrow>
      notes lead_data \<noteq> None \<and> notes lead_data \<noteq> Some [] \<and> notes lead_data \<noteq> notes lead"
    using mem by (cases "notes lead_data") (auto simp: note_activities_def)
  have 2: "length (filter (\<lambda>a. act_type a = NOTE_ADDED)
      (appended_activities iter now lead lead_data)) \<le> 1"
    by (simp add: filter_appended note_activities_def)
  have 3: "\<forall>a\<in>set (appended_activities iter now lead lead_data). act_type a = NOTE_ADDED \<longrightarrow>
      (\<exists>s. notes lead_data = Some s \<and> details a = Some (take 100 s))"
  proof (intro ballI impI)
    fix a
    assume "a \<in> set (appended_activities iter now lead lead_data)" and "act_type a = NOTE_ADDED"
    then have "a \<in> set (note_activities now lead lead_data)"
      using mem by blast
    then show "\<exists>s. notes lead_data = Some s \<and> details a = Some (take 100 s)"
      by (cases "notes lead_data") (auto simp: note_activities_def split: if_splits)
  qed
  from 1 2 3 show ?thesis by blast
qed

text \<open>
  Claim C4, for an update that returns a lead. The update appends a \<open>NOTE_ADDED\<close> activity
  exactly when its notes are neither \<open>None\<close> nor empty and differ from the stored notes;
  it appends at most one, and the details of such an activity are the first 100
  characters of the new notes.
\<close>

theorem note_added_tracked:
  assumes "updated_lead rt now lead lead_data = Inr new"
  shows
    "((\<exists>a\<in>set (appended_to lead new). act_type a = NOTE_ADDED) \<longleftrightarrow>
        notes lead_data \<noteq> None \<and> notes lead_data \<noteq> Some [] \<and> notes lead_data \<noteq> notes lead) \<and>
     length (filter (\<lambda>a. act_type a = NOTE_ADDED) (appended_to lead new)) \<le> 1 \<and>
     (\<forall>a\<in>set (appended_to lead new). act_type a = NOTE_ADDED \<longrightarrow>
        (\<exists>s. notes lead_data = Some s \<and> details a = Some (take 100 s)))"
  unfolding appended_to_updated_lead [OF assms]
  by (rule note_added_appended)

text \<open>
  Claim C5. An update either raises \<^verbatim>\<open>ValidationError\<close> or returns a lead that keeps the
  identifier and the creation date of the stored lead, and whose history is the stored
  history, entry for entry, followed by the activities the update appends.
\<close>

theorem update_preserves_identity_and_history:
  "case updated_lead rt now lead lead_data of
     Inl e \<Rightarrow> e = ValidationError
   | Inr new \<Rightarrow>
       lead_id new = lead_id lead \<and> date_added new = date_added lead \<and>
       take (length (activity_history lead)) (activity_history new) = activity_history lead \<and>
       activity_history new = activity_history lead @ appended_to lead new"
proof (cases "updated_lead rt now lead lead_data")
  case (Inl e)
  then show ?thesis by (simp add: updated_lead_error)
next
  case (Inr new)
  from Inr [unfolded updated_lead_eq] have "lead_id new = lead_id lead \<and> date_added new = date_added lead"
    by (drule_tac Lead_Inr_fields) blast
  with Inr show ?thesis
    by (simp add: updated_lead_history [OF Inr] appended_to_def)
qed

section \<open>Saving and loading\<close>

lemma required_Some [simp]: "required (Some x) f = f x"
  by (simp add: required_def)

lemma required_None [simp]: "required None f = Inl ValidationError"
  by (simp add: required_def)

lemma activity_type_of_value_value [simp]:
  "activity_type_of_value (activity_type_value ty) = Some ty"
  by (cases ty) (simp_all add: activity_type_of_value_def)

lemma status_of_value_value [simp]: "status_of_value (status_value st) = Some st"
  by (cases st) (simp_all add: status_of_value_def)

lemma field_optional_str_value [simp]:
  "field_optional_str dflt (Some (optional_str_value x)) = Some x"
  by (cases x) simp_all

lemma those_str_items [simp]: "those (map (str_item \<circ> PStr) xs) = Some xs"
  by (induction xs) simp_all

lemma those_activity_items [simp]: "those (map (activity_item \<circ> PActivity) xs) = Some xs"
  by (induction xs) simp_all

lemma activity_entry_eq:
  "activity_entry rt a =
     [(''timestamp'', PStr (isoformat rt (timestamp a))),
      (''type'', PStr (activity_type_value (act_type a))),
      (''description'', PStr (description a)),
      (''details'', optional_str_value (details a))]"
  by (simp add: activity_entry_def activity_model_dump_def)

lemma Activity_selectors [simp]:
  "Activity (timestamp a) (act_type a) (description a) (details a) = a"
  by (simp add: Activity_def)

lemma load_activity_entry:
  "fromisoformat rt (isoformat rt (timestamp a)) = Some (timestamp a) \<Longrightarrow>
   load_activity rt (PDict (activity_entry rt a)) = Inr (PActivity a)"
  by (simp add: load_activity_def activity_entry_eq Activity_from_dict_def)

lemma for_each_load_activity:
  "list_all (\<lambda>a. fromisoformat rt (isoformat rt (timestamp a)) = Some (timestamp a)) xs \<Longrightarrow>
   for_each (load_activity rt) (map (\<lambda>a. PDict (activity_entry rt a)) xs) = Inr (map PActivity xs)"
  by (induction xs) (simp_all add: load_activity_entry)

lemma lead_entry_eq:
  "lead_entry rt l =
     [(''company_name'', PStr (company_name l)),
      (''contact_name'', PStr (contact_name l)),
      (''title'', PStr (title l)),
      (''email'', PStr (email l)),
      (''linkedin_url'', PStr (linkedin_url l)),
      (''status'', PStr (status_value (status l))),
      (''notes'', optional_str_value (notes l)),
      (''tags'', PList (map PStr (tags l))),
      (''id'', PStr (lead_id l)),
      (''date_added'', PStr (isoformat rt (date_added l))),
      (''last_contacted'', (case last_contacted l of Some t \<Rightarrow> PStr (isoformat rt t) | None \<Rightarrow> PNone)),
      (''activity_history'', PList (map (\<lambda>a. PDict (activity_entry rt a)) (activity_history l)))]"
  by (simp add: lead_entry_def lead_model_dump_def)


lemma Lead_of_own_fields:
  "Lead rt i da lc ah
     \<lparr>company_name = company_name l, contact_name = contact_name l, title = title l,
      email = email l, linkedin_url = linkedin_url l, status = status l, notes = notes l,
      tags = tags l\<rparr> = Lead rt i da lc ah l"
  by (simp add: Lead_def LeadBase_def)

lemma load_lead_entry:
  assumes "list_all (reads_back rt) (lead_timestamps l)" and "keeps_fields rt l"
  shows "load_lead rt (PDict (lead_entry rt l)) = Inr l"
proof -
  have da: "fromisoformat rt (isoformat rt (date_added l)) = Some (date_added l)"
    using assms(1) by (simp add: lead_timestamps_def reads_back_def)
  have ah: "list_all (\<lambda>a. fromisoformat rt (isoformat rt (timestamp a)) = Some (timestamp a))
      (activity_history l)"
    using assms(1) by (simp add: lead_timestamps_def reads_back_def list_all_iff)
  note acts = for_each_load_activity [OF ah]
  note own = assms(2) [unfolded keeps_fields_def]
  show ?thesis
  proof (cases "last_contacted l")
    case None
    then show ?thesis
      by (simp add: load_lead_def lead_entry_eq parse_date_added_def da
          parse_last_contacted_def parse_activity_history_def acts
          Lead_from_dict_def LeadBase_arguments_def Lead_of_own_fields)
        (use None own in simp)
  next
    case (Some t)
    with assms(1) have "fromisoformat rt (isoformat rt t) = Some t" and "isoformat rt t \<noteq> []"
      by (simp_all add: lead_timestamps_def reads_back_def)
    with Some show ?thesis
      by (simp add: load_lead_def lead_entry_eq parse_date_added_def da
          parse_last_contacted_def parse_activity_history_def acts
          Lead_from_dict_def LeadBase_arguments_def Lead_of_own_fields)
        (use Some own in simp)
  qed
qed

lemma json_serializable_optional_str [simp]: "json_serializable (optional_str_value x)"
  by (cases x) simp_all

lemma json_serializable_activity_entry: "json_serializable (PDict (activity_entry rt a))"
  by (simp add: activity_entry_eq)

lemma json_serializable_lead_entry: "json_serializable (PDict (lead_entry rt l))"
proof -
  have "json_serializable (case last_contacted l of Some t \<Rightarrow> PStr (isoformat rt t) | None \<Rightarrow> PNone)"
    by (cases "last_contacted l") simp_all
  moreover have "list_all json_serializable (map PStr (tags l))"
    by (simp add: list_all_iff)
  moreover have "list_all json_serializable
      (map (\<lambda>a. PDict (activity_entry rt a)) (activity_history l))"
    using json_serializable_activity_entry by (simp add: list_all_iff)
  ultimately show ?thesis
    by (simp add: lead_entry_eq)
qed

lemma json_serializable_leads_document: "json_serializable (leads_document rt leads)"
  using json_serializable_lead_entry by (simp add: leads_document_def list_all_iff)

lemma save_leads_result:
  "save_leads rt leads file = (Some (leads_document rt leads), Inr ())"
  by (simp add: save_leads_def Let_def json_serializable_leads_document)

lemma for_each_load_lead:
  "list_all (reads_back rt) (concat (map lead_timestamps leads)) \<Longrightarrow>
   list_all (keeps_fields rt) leads \<Longrightarrow>
   for_each (load_lead rt) (map (\<lambda>l. PDict (lead_entry rt l)) leads) = Inr leads"
  by (induction leads) (simp_all add: load_lead_entry)

lemma load_leads_document:
  "list_all (reads_back rt) (concat (map lead_timestamps leads)) \<Longrightarrow>
   list_all (keeps_fields rt) leads \<Longrightarrow>
   load_leads rt (Some (leads_document rt leads)) = (Some (leads_document rt leads), Inr leads)"
  by (simp add: load_leads_def ensure_data_file_exists_def leads_document_def
      for_each_load_lead)

lemma load_leads_absent:
  "load_leads rt None = (Some (PDict [(''leads'', PList [])]), Inr [])"
  by (simp add: load_leads_def ensure_data_file_exists_def)

lemma load_leads_state: "load_leads rt file = (file', r) \<Longrightarrow> file' = ensure_data_file_exists file"
  by (simp add: load_leads_def Let_def)

text \<open>A lead whose URL is longer than the bound is saved and cannot be loaded.\<close>

lemma load_lead_long_url:
  assumes "list_all (reads_back rt) (lead_timestamps l)" and "500 < length (linkedin_url l)"
  shows "load_lead rt (PDict (lead_entry rt l)) = Inl ValidationError"
proof -
  have da: "fromisoformat rt (isoformat rt (date_added l)) = Some (date_added l)"
    using assms(1) by (simp add: lead_timestamps_def reads_back_def)
  have ah: "list_all (\<lambda>a. fromisoformat rt (isoformat rt (timestamp a)) = Some (timestamp a))
      (activity_history l)"
    using assms(1) by (simp add: lead_timestamps_def reads_back_def list_all_iff)
  note acts = for_each_load_activity [OF ah]
  have long: "Lead rt i da lc ah l = Inl ValidationError" for i da lc ah
    using assms(2) by (rule Lead_long_url)
  show ?thesis
  proof (cases "last_contacted l")
    case None
    then show ?thesis
      by (simp add: load_lead_def lead_entry_eq parse_date_added_def da
          parse_last_contacted_def parse_activity_history_def acts
          Lead_from_dict_def LeadBase_arguments_def Lead_of_own_fields long)
  next
    case (Some t)
    with assms(1) have "fromisoformat rt (isoformat rt t) = Some t" and "isoformat rt t \<noteq> []"
      by (simp_all add: lead_timestamps_def reads_back_def)
    with Some show ?thesis
      by (simp add: load_lead_def lead_entry_eq parse_date_added_def da
          parse_last_contacted_def parse_activity_history_def acts
          Lead_from_dict_def LeadBase_arguments_def Lead_of_own_fields long)
  qed
qed

text \<open>
  Claim C8, for leads that the constructor accepts as they are. When the date functions
  of the runtime read back each date the collection holds and the constructor returns
  each lead of the collection from its own fields, saving the collection succeeds and
  loading the saved file returns the collection itself: every lead with all its fields,
  its activities and its dates.
\<close>

theorem save_then_load:
  assumes "list_all (reads_back rt) (concat (map lead_timestamps leads))"
    and "list_all (keeps_fields rt) leads"
  shows "snd (save_leads rt leads file) = Inr () \<and>
         load_leads rt (fst (save_leads rt leads file)) =
           (fst (save_leads rt leads file), Inr leads)"
  using assms by (simp add: save_leads_result load_leads_document)

section \<open>Operations on the collection: create, delete, update\<close>

lemma load_leads_again:
  "load_leads rt st = (st', r) \<Longrightarrow> load_leads rt st' = (st', r)"
  by (cases st) (auto simp: load_leads_def Let_def ensure_data_file_exists_def)

lemma lead_id_updated_lead:
  "updated_lead rt now lead lead_data = Inr new \<Longrightarrow> lead_id new = lead_id lead"
  unfolding updated_lead_eq by (drule Lead_Inr_fields) blast

lemma LeadBase_Lead:
  "LeadBase rt kwargs = Inr base \<Longrightarrow> Lead rt i da lc ah kwargs = Inr (make_lead i da lc ah base)"
  by (simp add: Lead_def)

text \<open>
  Claim C6, for a field set that the constructor accepts. On a collection that loads,
  \<open>create_lead\<close> stores the collection with the new lead at its end and returns that lead:
  its history is one \<open>CREATED\<close> activity whose description ends with the contact name, its
  \<open>last_contacted\<close> is \<open>None\<close>, its \<open>date_added\<close> is the time of creation, its identifier is
  the fresh one and its other fields are the validated fields of the input.
\<close>

theorem create_lead_seeds_history:
  assumes "load_leads rt file = (file', Inr leads)" and "LeadBase rt lead_data = Inr base"
  shows "\<exists>new. create_lead rt now uuid lead_data file =
           (Some (leads_document rt (leads @ [new])), Inr new) \<and>
         (\<exists>a. activity_history new = [a] \<and> act_type a = CREATED \<and> timestamp a = now \<and>
            description a = ''Lead created for '' @ contact_name lead_data \<and>
            details a = None) \<and>
         last_contacted new = None \<and> date_added new = now \<and> lead_id new = uuid \<and>
         new = make_lead uuid now None (activity_history new) base"
  using assms
  by (simp add: create_lead_def Let_def save_leads_result LeadBase_Lead)

lemma create_lead_long_url:
  assumes "load_leads rt file = (file', Inr leads)" and "500 < length (linkedin_url lead_data)"
  shows "create_lead rt now uuid lead_data file = (file', Inl ValidationError)"
  using assms(1) by (simp add: create_lead_def Let_def Lead_long_url [OF assms(2)])

text \<open>
  Claim C9. On a collection that loads, \<open>delete_lead\<close> returns \<open>True\<close> exactly when a lead
  has the identifier. When none has, \<open>save_leads\<close> is not run: the file is as loading
  left it, which is the file itself when there was one. When one has, the file holds the collection without the leads of that
  identifier, the others in their order; where identifiers are distinct, that is the
  collection with one lead taken out.
\<close>

theorem delete_lead_effect:
  assumes "load_leads rt file = (file', Inr leads)"
  shows "delete_lead rt lid file =
           (if lid \<in> lead_id ` set leads
            then (Some (leads_document rt (filter (\<lambda>lead. lead_id lead \<noteq> lid) leads)), Inr True)
            else (ensure_data_file_exists file, Inr False)) \<and>
         (lid \<notin> lead_id ` set leads \<and> file \<noteq> None \<longrightarrow> fst (delete_lead rt lid file) = file) \<and>
         (lid \<in> lead_id ` set leads \<and> distinct (map lead_id leads) \<longrightarrow>
            (\<exists>before lead after. leads = before @ lead # after \<and> lead_id lead = lid \<and>
               filter (\<lambda>lead. lead_id lead \<noteq> lid) leads = before @ after))"
proof -
  have len: "length (filter (\<lambda>lead. lead_id lead \<noteq> lid) leads) < length leads \<longleftrightarrow>
      lid \<in> lead_id ` set leads"
    by (induction leads) (auto simp: less_Suc_eq_le)
  have 1: "delete_lead rt lid file =
           (if lid \<in> lead_id ` set leads
            then (Some (leads_document rt (filter (\<lambda>lead. lead_id lead \<noteq> lid) leads)), Inr True)
            else (ensure_data_file_exists file, Inr False))"
    using assms load_leads_state [OF assms]
    by (simp add: delete_lead_def Let_def save_leads_result len)
  have 2: "lid \<notin> lead_id ` set leads \<and> file \<noteq> None \<longrightarrow> fst (delete_lead rt lid file) = file"
    using 1 by (auto simp: ensure_data_file_exists_def)
  have 3: "lid \<in> lead_id ` set leads \<and> distinct (map lead_id leads) \<longrightarrow>
            (\<exists>before lead after. leads = before @ lead # after \<and> lead_id lead = lid \<and>
               filter (\<lambda>lead. lead_id lead \<noteq> lid) leads = before @ after)"
  proof
    assume a: "lid \<in> lead_id ` set leads \<and> distinct (map lead_id leads)"
    then obtain lead where "lead \<in> set leads" "lead_id lead = lid" by auto
    then obtain before after where split: "leads = before @ lead # after"
      by (auto simp: in_set_conv_decomp)
    with a \<open>lead_id lead = lid\<close> have "\<forall>l\<in>set before \<union> set after. lead_id l \<noteq> lid"
      by (force simp: image_iff)
    then have "filter (\<lambda>lead. lead_id lead \<noteq> lid) leads = before @ after"
      using split \<open>lead_id lead = lid\<close> by (simp add: filter_id_conv)
    with split \<open>lead_id lead = lid\<close> show "\<exists>before lead after. leads = before @ lead # after \<and>
        lead_id lead = lid \<and> filter (\<lambda>lead. lead_id lead \<noteq> lid) leads = before @ after"
      by blast
  qed
  from 1 2 3 show ?thesis by blast
qed

lemma update_loop_match:
  assumes "lid \<in> lead_id ` set rest"
  shows "\<exists>k < length rest. lead_id (rest ! k) = lid \<and>
           update_loop rt now lid lead_data leads i rest =
             Some (and_then (updated_lead rt now (rest ! k) lead_data)
                     (\<lambda>updated. Inr (leads[i + k := updated], updated)))"
  using assms
proof (induction rest arbitrary: i)
  case Nil
  then show ?case by simp
next
  case (Cons lead rest)
  show ?case
  proof (cases "lead_id lead = lid")
    case True
    then show ?thesis by (intro exI [of _ 0]) simp
  next
    case False
    with Cons.prems have "lid \<in> lead_id ` set rest" by auto
    from Cons.IH [OF this, of "Suc i"] obtain k where
      "k < length rest" "lead_id (rest ! k) = lid"
      "update_loop rt now lid lead_data leads (Suc i) rest =
         Some (and_then (updated_lead rt now (rest ! k) lead_data)
                 (\<lambda>updated. Inr (leads[Suc i + k := updated], updated)))"
      by blast
    with False show ?thesis by (intro exI [of _ "Suc k"]) simp
  qed
qed

text \<open>
  Claim C10. On a collection that loads and holds a lead with the identifier, the
  collection that \<open>update_lead\<close> leaves has the same length and the same identifiers at the
  same positions, and every lead with another identifier is the lead that was there.
  Either \<open>updated_lead\<close> returns a lead for one lead that has the identifier, and the
  collection with this lead in its place is stored and the lead returned; or
  \<open>updated_lead\<close> raises \<^verbatim>\<open>ValidationError\<close>, nothing is saved, and the file still loads to
  the collection as it was.
\<close>

theorem update_lead_frame:
  assumes "load_leads rt file = (file', Inr leads)" and "lid \<in> lead_id ` set leads"
  shows "\<exists>leads'. length leads' = length leads \<and> map lead_id leads' = map lead_id leads \<and>
           (\<forall>i < length leads. lead_id (leads ! i) \<noteq> lid \<longrightarrow> leads' ! i = leads ! i) \<and>
           ((\<exists>k updated. k < length leads \<and> lead_id (leads ! k) = lid \<and>
               updated_lead rt now (leads ! k) lead_data = Inr updated \<and>
               leads' = leads[k := updated] \<and>
               update_lead rt now lid lead_data file =
                 (Some (leads_document rt leads'), Inr (Some updated))) \<or>
            (leads' = leads \<and>
               update_lead rt now lid lead_data file = (file', Inl ValidationError) \<and>
               load_leads rt file' = (file', Inr leads)))"
proof -
  from update_loop_match [OF assms(2), of rt now lead_data leads 0]
  obtain k where k: "k < length leads" "lead_id (leads ! k) = lid"
    and loop: "update_loop rt now lid lead_data leads 0 leads =
      Some (and_then (updated_lead rt now (leads ! k) lead_data)
              (\<lambda>updated. Inr (leads[k := updated], updated)))"
    by auto
  show ?thesis
  proof (cases "updated_lead rt now (leads ! k) lead_data")
    case (Inl e)
    then have "e = ValidationError" by (rule updated_lead_error)
    with Inl assms(1) loop
    have "update_lead rt now lid lead_data file = (file', Inl ValidationError)"
      by (simp add: update_lead_def)
    with load_leads_again [OF assms(1)] show ?thesis
      by (intro exI [of _ leads]) simp
  next
    case (Inr u)
    have run: "update_lead rt now lid lead_data file =
        (Some (leads_document rt (leads[k := u])), Inr (Some u))"
      using assms(1) loop Inr by (simp add: update_lead_def save_leads_result)
    have "lead_id u = lid"
      using lead_id_updated_lead [OF Inr] k by simp
    then have ids: "map lead_id (leads[k := u]) = map lead_id leads"
      using k by (simp add: map_update list_update_same_conv)
    have frame: "\<forall>i < length leads. lead_id (leads ! i) \<noteq> lid \<longrightarrow> leads[k := u] ! i = leads ! i"
      using k by (auto simp: nth_list_update)
    have stored: "\<exists>j updated. j < length leads \<and> lead_id (leads ! j) = lid \<and>
        updated_lead rt now (leads ! j) lead_data = Inr updated \<and>
        leads[k := u] = leads[j := updated] \<and>
        update_lead rt now lid lead_data file =
          (Some (leads_document rt (leads[k := u])), Inr (Some updated))"
      using k Inr run by (intro exI [of _ k] exI [of _ u]) simp
    from ids frame stored show ?thesis
      by (intro exI [of _ "leads[k := u]"] conjI disjI1) simp_all
  qed
qed

lemma update_lead_long_url:
  assumes "load_leads rt file = (file', Inr leads)" and "lid \<in> lead_id ` set leads"
    and "500 < length (linkedin_url lead_data)"
  shows "update_lead rt now lid lead_data file = (file', Inl ValidationError)"
proof -
  from update_loop_match [OF assms(2), of rt now lead_data leads 0]
  obtain k where "update_loop rt now lid lead_data leads 0 leads =
      Some (and_then (updated_lead rt now (leads ! k) lead_data)
              (\<lambda>updated. Inr (leads[k := updated], updated)))"
    by auto
  with assms(1) show ?thesis
    by (simp add: update_lead_def updated_lead_long_url [OF assms(3)])
qed

section \<open>Statistics\<close>

lemma insort_key_ranked:
  assumes "sorted_wrt (\<lambda>a b. f a < f b \<or> (f a = f b \<and> Q a b)) ys"
    and "\<forall>y\<in>set ys. Q x y"
  shows "sorted_wrt (\<lambda>a b. f a < f b \<or> (f a = f b \<and> Q a b)) (insort_key f x ys)"
  using assms
proof (induction ys)
  case Nil
  then show ?case by simp
next
  case (Cons y ys)
  show ?case
  proof (cases "f x \<le> f y")
    case True
    have "\<forall>z\<in>set ys. f y \<le> f z" using Cons.prems(1) by auto
    with True have "\<forall>z\<in>set (y # ys). f x \<le> f z" by auto
    with Cons.prems(2) have "\<forall>z\<in>set (y # ys). f x < f z \<or> (f x = f z \<and> Q x z)"
      by (auto simp: le_less)
    with True Cons.prems(1) show ?thesis by simp
  next
    case False
    then have "f y < f x" by simp
    moreover have "sorted_wrt (\<lambda>a b. f a < f b \<or> (f a = f b \<and> Q a b)) (insort_key f x ys)"
      using Cons by simp
    ultimately show ?thesis using False Cons.prems(1) by (auto simp: set_insort_key)
  qed
qed

lemma sort_key_ranked:
  "sorted_wrt Q xs \<Longrightarrow>
   sorted_wrt (\<lambda>a b. f a < f b \<or> (f a = f b \<and> Q a b)) (sort_key f xs)"
  by (induction xs) (simp_all add: insort_key_ranked)

lemma sorted_reverse_ranked:
  assumes "sorted_wrt Q xs"
  shows "sorted_wrt (\<lambda>a b. key b < key a \<or> (key a = key b \<and> Q a b)) (sorted_reverse key xs)"
proof -
  from assms have "sorted_wrt (\<lambda>a b. Q b a) (rev xs)"
    by (simp add: sorted_wrt_rev)
  then have "sorted_wrt (\<lambda>a b. key a < key b \<or> (key a = key b \<and> Q b a)) (sort_key key (rev xs))"
    by (rule sort_key_ranked)
  then have "sorted_wrt (\<lambda>a b. key b < key a \<or> (key b = key a \<and> Q a b)) (sorted_reverse key xs)"
    by (simp add: sorted_reverse_def sorted_wrt_rev)
  then show ?thesis
    by (rule sorted_wrt_mono_rel [rotated]) auto
qed

lemma set_sorted_reverse [simp]: "set (sorted_reverse key xs) = set xs"
  by (simp add: sorted_reverse_def)

lemma length_sorted_reverse [simp]: "length (sorted_reverse key xs) = length xs"
  by (simp add: sorted_reverse_def)


lemma companies_in_order_snoc:
  "companies_in_order (pre @ [lead]) =
     (if company_name lead \<in> set (companies_in_order pre) then companies_in_order pre
      else companies_in_order pre @ [company_name lead])"
  by (simp add: companies_in_order_def)

lemma set_companies_in_order [simp]: "set (companies_in_order leads) = company_name ` set leads"
  by (simp add: companies_in_order_def)

lemma distinct_companies_in_order [simp]: "distinct (companies_in_order leads)"
  by (simp add: companies_in_order_def)

lemma company_count_snoc:
  "company_count (pre @ [lead]) c =
     (if company_name lead = c then Suc (company_count pre c) else company_count pre c)"
  by (simp add: company_count_def)

lemma company_count_zero: "c \<notin> company_name ` set leads \<Longrightarrow> company_count leads c = 0"
  by (auto simp: company_count_def filter_empty_conv)

lemma company_count_pos: "c \<in> company_name ` set leads \<Longrightarrow> 0 < company_count leads c"
  by (auto simp: company_count_def filter_empty_conv)

lemma status_count_Cons:
  "status_count (lead # rest) s =
     (if status lead = s then Suc (status_count rest s) else status_count rest s)"
  by (simp add: status_count_def)

lemma count_leads_invariant:
  assumes "map fst cc = companies_in_order pre"
    and "\<forall>c. map_of cc c =
          (if c \<in> company_name ` set pre then Some (company_count pre c) else None)"
  shows "\<exists>cc'. count_leads rest
            [(''not_contacted'', a), (''contacted'', b), (''responded'', d)] cc =
           Inr ([(''not_contacted'', a + status_count rest NOT_CONTACTED),
                 (''contacted'', b + status_count rest CONTACTED),
                 (''responded'', d + status_count rest RESPONDED)], cc') \<and>
         map fst cc' = companies_in_order (pre @ rest) \<and>
         (\<forall>c. map_of cc' c =
            (if c \<in> company_name ` set (pre @ rest)
             then Some (company_count (pre @ rest) c) else None))"
  using assms
proof (induction rest arbitrary: a b d cc pre)
  case Nil
  then show ?case by (simp add: status_count_def)
next
  case (Cons lead rest)
  let ?c = "company_name lead"
  let ?cc = "AList.update ?c ((case map_of cc ?c of None \<Rightarrow> 0 | Some n \<Rightarrow> n) + 1) cc"
  have keys: "map fst ?cc = companies_in_order (pre @ [lead])"
    using Cons.prems(1) by (simp add: update_keys companies_in_order_snoc)
  have vals: "\<forall>c. map_of ?cc c =
      (if c \<in> company_name ` set (pre @ [lead])
       then Some (company_count (pre @ [lead]) c) else None)"
    using Cons.prems(2) by (auto simp: update_conv' company_count_snoc company_count_zero)
  let ?a = "a + (if status lead = NOT_CONTACTED then 1 else 0)"
  let ?b = "b + (if status lead = CONTACTED then 1 else 0)"
  let ?d = "d + (if status lead = RESPONDED then 1 else 0)"
  have step: "count_leads (lead # rest)
        [(''not_contacted'', a), (''contacted'', b), (''responded'', d)] cc =
      count_leads rest [(''not_contacted'', ?a), (''contacted'', ?b), (''responded'', ?d)] ?cc"
    by (cases "status lead") simp_all
  have app: "(pre @ [lead]) @ rest = pre @ lead # rest"
    by simp
  from Cons.IH [OF keys vals, of ?a ?b ?d, unfolded app] obtain cc' where
    run: "count_leads rest [(''not_contacted'', ?a), (''contacted'', ?b), (''responded'', ?d)] ?cc =
      Inr ([(''not_contacted'', ?a + status_count rest NOT_CONTACTED),
            (''contacted'', ?b + status_count rest CONTACTED),
            (''responded'', ?d + status_count rest RESPONDED)], cc')"
    and keys': "map fst cc' = companies_in_order (pre @ lead # rest)"
    and vals': "\<forall>c. map_of cc' c =
            (if c \<in> company_name ` set (pre @ lead # rest)
             then Some (company_count (pre @ lead # rest) c) else None)"
    by blast
  have "count_leads (lead # rest)
        [(''not_contacted'', a), (''contacted'', b), (''responded'', d)] cc =
      Inr ([(''not_contacted'', a + status_count (lead # rest) NOT_CONTACTED),
            (''contacted'', b + status_count (lead # rest) CONTACTED),
            (''responded'', d + status_count (lead # rest) RESPONDED)], cc')"
    unfolding step run by (simp add: status_count_Cons)
  with keys' vals' show ?case by blast
qed

lemma status_counts_sum:
  "status_count leads NOT_CONTACTED + status_count leads CONTACTED +
   status_count leads RESPONDED = length leads"
proof (induction leads)
  case Nil
  then show ?case by (simp add: status_count_def)
next
  case (Cons lead leads)
  then show ?case by (cases "status lead") (simp_all add: status_count_Cons)
qed

lemma first_seen_snoc_old:
  "c \<in> company_name ` set pre \<Longrightarrow> first_seen (pre @ rest) c = first_seen pre c"
  unfolding first_seen_def by (induction pre) auto

lemma first_seen_less: "c \<in> company_name ` set pre \<Longrightarrow> first_seen pre c < length pre"
  unfolding first_seen_def by (induction pre) auto

lemma first_seen_new: "c \<notin> company_name ` set pre \<Longrightarrow> first_seen (pre @ rest) c \<ge> length pre"
  unfolding first_seen_def by (induction pre) auto

lemma companies_in_order_sorted:
  "sorted_wrt (\<lambda>a b. first_seen leads a < first_seen leads b) (companies_in_order leads)"
proof (induction leads rule: rev_induct)
  case Nil
  then show ?case by (simp add: companies_in_order_def)
next
  case (snoc lead leads)
  have old: "sorted_wrt (\<lambda>a b. first_seen (leads @ [lead]) a < first_seen (leads @ [lead]) b)
      (companies_in_order leads)"
    using snoc
    by (rule sorted_wrt_mono_rel [rotated]) (simp add: first_seen_snoc_old)
  show ?case
  proof (cases "company_name lead \<in> company_name ` set leads")
    case True
    with old show ?thesis by (simp add: companies_in_order_snoc)
  next
    case False
    have "\<forall>a\<in>set (companies_in_order leads).
        first_seen (leads @ [lead]) a < first_seen (leads @ [lead]) (company_name lead)"
    proof
      fix a
      assume "a \<in> set (companies_in_order leads)"
      then have "a \<in> company_name ` set leads" by simp
      then have "first_seen (leads @ [lead]) a < length leads"
        by (simp add: first_seen_snoc_old first_seen_less)
      with first_seen_new [OF False, of "[lead]"]
      show "first_seen (leads @ [lead]) a < first_seen (leads @ [lead]) (company_name lead)"
        by simp
    qed
    with old False show ?thesis
      by (simp add: companies_in_order_snoc sorted_wrt_append)
  qed
qed


lemma count_leads_from_start:
  "\<exists>cc. count_leads leads [(''not_contacted'', 0), (''contacted'', 0), (''responded'', 0)] [] =
           Inr ([(''not_contacted'', status_count leads NOT_CONTACTED),
                 (''contacted'', status_count leads CONTACTED),
                 (''responded'', status_count leads RESPONDED)], cc) \<and>
        map fst cc = companies_in_order leads \<and>
        set cc = (\<lambda>c. (c, company_count leads c)) ` company_name ` set leads"
proof -
  from count_leads_invariant [of "[]" "[]" leads 0 0 0] obtain cc where
    run: "count_leads leads [(''not_contacted'', 0), (''contacted'', 0), (''responded'', 0)] [] =
           Inr ([(''not_contacted'', status_count leads NOT_CONTACTED),
                 (''contacted'', status_count leads CONTACTED),
                 (''responded'', status_count leads RESPONDED)], cc)"
    and keys: "map fst cc = companies_in_order leads"
    and vals: "\<forall>c. map_of cc c =
        (if c \<in> company_name ` set leads then Some (company_count leads c) else None)"
    by (auto simp: companies_in_order_def)
  from keys have dist: "distinct (map fst cc)" by simp
  have "set cc = (\<lambda>c. (c, company_count leads c)) ` company_name ` set leads"
  proof (rule set_eqI)
    fix p :: "string \<times> nat"
    have "p \<in> set cc \<longleftrightarrow> map_of cc (fst p) = Some (snd p)"
      using dist by (cases p) simp
    also have "\<dots> \<longleftrightarrow> fst p \<in> company_name ` set leads \<and> snd p = company_count leads (fst p)"
      using vals by auto
    also have "\<dots> \<longleftrightarrow> p \<in> (\<lambda>c. (c, company_count leads c)) ` company_name ` set leads"
      by (cases p) auto
    finally show "p \<in> set cc \<longleftrightarrow> p \<in> (\<lambda>c. (c, company_count leads c)) ` company_name ` set leads" .
  qed
  with run keys show ?thesis by blast
qed

text \<open>
  Claim C7. On a collection that loads, \<open>get_stats\<close> returns: the number of leads as
  \<open>total\<close>; under \<open>by_status\<close> the number of leads of each of the three statuses, which add
  up to \<open>total\<close>; as \<open>top_companies\<close> the first five entries of the ranking of all
  companies with their numbers of leads, the larger number first and among equal numbers
  the company that appears first in the collection. On the empty collection all of these
  are zero or empty.
\<close>

theorem get_stats_counts:
  assumes "load_leads rt file = (file', Inr leads)"
  shows "\<exists>st ranking. get_stats rt file = (file', Inr st) \<and>
     total st = length leads \<and>
     by_status st =
       [(''not_contacted'', status_count leads NOT_CONTACTED),
        (''contacted'', status_count leads CONTACTED),
        (''responded'', status_count leads RESPONDED)] \<and>
     sum_list (map snd (by_status st)) = total st \<and>
     top_companies st = take 5 ranking \<and>
     length (top_companies st) \<le> 5 \<and>
     sorted_wrt (ranks_before leads) (top_companies st) \<and>
     sorted_wrt (ranks_before leads) ranking \<and>
     set ranking = (\<lambda>c. (c, company_count leads c)) ` company_name ` set leads \<and>
     distinct (map fst ranking) \<and>
     (leads = [] \<longrightarrow> total st = 0 \<and> top_companies st = [] \<and>
        by_status st = [(''not_contacted'', 0), (''contacted'', 0), (''responded'', 0)])"
proof -
  from count_leads_from_start [of leads] obtain cc where
    run: "count_leads leads [(''not_contacted'', 0), (''contacted'', 0), (''responded'', 0)] [] =
           Inr ([(''not_contacted'', status_count leads NOT_CONTACTED),
                 (''contacted'', status_count leads CONTACTED),
                 (''responded'', status_count leads RESPONDED)], cc)"
    and keys: "map fst cc = companies_in_order leads"
    and entries: "set cc = (\<lambda>c. (c, company_count leads c)) ` company_name ` set leads"
    by blast
  let ?ranking = "sorted_reverse snd cc"
  let ?st = "\<lparr>total = length leads,
      by_status = [(''not_contacted'', status_count leads NOT_CONTACTED),
                   (''contacted'', status_count leads CONTACTED),
                   (''responded'', status_count leads RESPONDED)],
      top_companies = take 5 ?ranking\<rparr>"
  have res: "get_stats rt file = (file', Inr ?st)"
    using assms run by (simp add: get_stats_def)
  have "sorted_wrt (\<lambda>a b. first_seen leads a < first_seen leads b) (map fst cc)"
    unfolding keys by (rule companies_in_order_sorted)
  then have "sorted_wrt (\<lambda>a b. first_seen leads (fst a) < first_seen leads (fst b)) cc"
    by (simp add: sorted_wrt_map)
  then have "sorted_wrt (\<lambda>a b. snd b < snd a \<or>
      (snd a = snd b \<and> first_seen leads (fst a) < first_seen leads (fst b))) ?ranking"
    by (rule sorted_reverse_ranked)
  then have ranked: "sorted_wrt (ranks_before leads) ?ranking"
    by (rule sorted_wrt_mono_rel [rotated]) (simp add: ranks_before_def)
  then have top: "sorted_wrt (ranks_before leads) (take 5 ?ranking)"
    by (rule sorted_wrt_take)
  have "distinct (map fst cc)"
    unfolding keys by simp
  then have "distinct cc \<and> inj_on fst (set cc)"
    by (simp add: distinct_map)
  then have dist: "distinct (map fst ?ranking)"
    by (simp add: distinct_map sorted_reverse_def)
  have empty: "leads = [] \<longrightarrow> take 5 ?ranking = [] \<and> status_count leads NOT_CONTACTED = 0 \<and>
      status_count leads CONTACTED = 0 \<and> status_count leads RESPONDED = 0"
    using entries by (auto simp: status_count_def sorted_reverse_def)
  show ?thesis
    using res ranked top dist entries empty status_counts_sum [of leads]
    by (intro exI [of _ ?st] exI [of _ ?ranking]) simp
qed

section \<open>Closed instances\<close>

lemma strip_blanks_id:
  "s \<noteq> [] \<Longrightarrow> hd s \<noteq> CHR '' '' \<Longrightarrow> last s \<noteq> CHR '' '' \<Longrightarrow> strip_blanks s = s"
proof -
  assume s: "s \<noteq> []" and h: "hd s \<noteq> CHR '' ''" and l: "last s \<noteq> CHR '' ''"
  from s h have 1: "dropWhile (\<lambda>c. c = CHR '' '') s = s"
    by (cases s) simp_all
  from s l have 2: "dropWhile (\<lambda>c. c = CHR '' '') (rev s) = rev s"
    by (cases "rev s") (simp_all add: last_rev [symmetric] hd_rev)
  show ?thesis by (simp add: strip_blanks_def 1 2)
qed

lemma not_startswith: "s \<noteq> [] \<Longrightarrow> hd s \<noteq> c \<Longrightarrow> \<not> startswith s (c # p)"
  by (cases s) (auto simp: startswith_def)

lemma example_runtime_simps [simp]:
  "email_pattern_matches example_runtime ''jane@acme.com'' \<and>
   str_lower example_runtime ''jane@acme.com'' = ''jane@acme.com'' \<and>
   str_strip example_runtime = strip_blanks \<and>
   set_order example_runtime = listed_order [''c'', ''a'', ''b'']"
  by (simp add: example_runtime_def)

lemma validate_long_url:
  "validate_linkedin_url example_runtime long_url = ''https://'' @ long_url"
proof -
  have "strip_blanks long_url = long_url"
    by (rule strip_blanks_id) (simp_all add: long_url_def)
  moreover have "\<not> startswith long_url ''http://''" and "\<not> startswith long_url ''https://''"
    by (rule not_startswith; simp add: long_url_def)+
  moreover have "long_url \<noteq> []"
    by (simp add: long_url_def)
  ultimately show ?thesis
    by (simp add: validate_linkedin_url_def)
qed

lemma length_long_urls: "length long_url = 493 \<and> length (''https://'' @ long_url) = 501"
  by (simp add: long_url_def)

text \<open>
  The constructor of the base class on the field sets of the examples: it returns the
  field set of Jane Doe, whatever its company, status, notes and tags are among the
  values used here, and it turns the long URL as it is sent into the URL with its prefix.
\<close>

lemma LeadBase_jane:
  assumes "email d = ''jane@acme.com''" and "linkedin_url d = []"
    and "length_between 1 200 (company_name d)" and "length_between 1 200 (contact_name d)"
    and "length_between 1 200 (title d)"
    and "case notes d of None \<Rightarrow> True | Some s \<Rightarrow> length s \<le> 2000"
  shows "LeadBase example_runtime d =
     Inr \<lparr>company_name = company_name d, contact_name = contact_name d, title = title d,
          email = email d, linkedin_url = linkedin_url d, status = status d,
          notes = notes d, tags = tags d\<rparr>"
  using assms
  by (simp add: LeadBase_def length_between_def validate_linkedin_url_def)

lemma LeadBase_long_input:
  assumes "email d = ''jane@acme.com''" and "linkedin_url d = long_url"
    and "length_between 1 200 (company_name d)" and "length_between 1 200 (contact_name d)"
    and "length_between 1 200 (title d)"
    and "case notes d of None \<Rightarrow> True | Some s \<Rightarrow> length s \<le> 2000"
  shows "LeadBase example_runtime d =
     Inr \<lparr>company_name = company_name d, contact_name = contact_name d, title = title d,
          email = email d, linkedin_url = ''https://'' @ long_url, status = status d,
          notes = notes d, tags = tags d\<rparr>"
  using assms length_long_urls
  by (simp add: LeadBase_def length_between_def validate_long_url)

lemma reads_back_example:
  "reads_back example_runtime (clock 0) \<and> reads_back example_runtime (clock 1)"
  by (simp add: reads_back_def example_runtime_def clock_def)

lemma keeps_fields_examples:
  "keeps_fields example_runtime jane_lead \<and> keeps_fields example_runtime jane_contacted \<and>
   keeps_fields example_runtime omar_lead"
  by (simp add: keeps_fields_def Lead_def LeadBase_jane length_between_def
      jane_lead_def jane_contacted_def omar_lead_def jane_fields_def make_lead_def)

lemma example_timestamps:
  "lead_timestamps jane_lead = [clock 0, clock 0] \<and>
   lead_timestamps omar_lead = [clock 0, clock 0] \<and>
   lead_timestamps jane_contacted = [clock 0, clock 1, clock 0, clock 1] \<and>
   lead_timestamps long_lead = [clock 0, clock 0]"
  by (simp add: lead_timestamps_def jane_lead_def omar_lead_def jane_contacted_def long_lead_def)

lemma lead_ids: "lead_id jane_lead = ''lead-1'' \<and> lead_id omar_lead = ''lead-2''"
  by (simp add: jane_lead_def omar_lead_def)

lemma load_jane:
  "load_leads example_runtime (Some (leads_document example_runtime [jane_lead])) =
     (Some (leads_document example_runtime [jane_lead]), Inr [jane_lead])"
  using reads_back_example
  by (intro load_leads_document) (simp_all add: example_timestamps keeps_fields_examples)

lemma load_two_leads:
  "load_leads example_runtime (Some (leads_document example_runtime [omar_lead, jane_lead])) =
     (Some (leads_document example_runtime [omar_lead, jane_lead]), Inr [omar_lead, jane_lead])"
  using reads_back_example
  by (intro load_leads_document) (simp_all add: example_timestamps keeps_fields_examples)

lemmas appended_parts = appended_activities_eq specific_activities_def
      status_activities_def note_activities_def tag_added_activities_def
      tag_removed_activities_def fallback_activities_def

lemma jane_simps:
  "tags jane_lead = [''a'', ''b''] \<and> notes jane_lead = Some [] \<and>
   status jane_lead = NOT_CONTACTED \<and> company_name jane_lead = ''Acme'' \<and>
   last_contacted jane_lead = None \<and>
   activity_history jane_lead =
     [Activity (clock 0) CREATED ''Lead created for Jane Doe'' None]"
  by (simp add: jane_lead_def jane_fields_def)

lemma first_status_update:
  "updated_lead example_runtime (clock 1) jane_lead (jane_fields\<lparr>status := CONTACTED\<rparr>) =
     Inr jane_contacted"
proof -
  have "LeadBase example_runtime (jane_fields\<lparr>status := CONTACTED\<rparr>) =
      Inr (jane_fields\<lparr>status := CONTACTED\<rparr>)"
    by (simp add: LeadBase_jane length_between_def jane_fields_def)
  then show ?thesis
    by (simp add: updated_lead_eq LeadBase_Lead appended_parts jane_simps listed_order_def
        jane_contacted_def jane_lead_def jane_fields_def make_lead_def)
qed

text \<open>
  Claim C1 (the code departs from it). The lead \<open>jane_contacted\<close> is what the update of
  the status of a new lead returns, so its history ends with a \<open>STATUS_CHANGED\<close> entry. An
  update of it that changes \<open>company_name\<close> only returns a lead with the same history:
  nothing is appended, because the last test of \<open>updated_lead\<close> reads that stored entry.
\<close>

theorem company_only_update_after_status_change:
  "updated_lead example_runtime (clock 1) jane_lead (jane_fields\<lparr>status := CONTACTED\<rparr>) =
     Inr jane_contacted \<and>
   status (jane_fields\<lparr>status := CONTACTED, company_name := ''Acme Corp''\<rparr>) = status jane_contacted \<and>
   notes (jane_fields\<lparr>status := CONTACTED, company_name := ''Acme Corp''\<rparr>) = notes jane_contacted \<and>
   tags (jane_fields\<lparr>status := CONTACTED, company_name := ''Acme Corp''\<rparr>) = tags jane_contacted \<and>
   company_name (jane_fields\<lparr>status := CONTACTED, company_name := ''Acme Corp''\<rparr>) \<noteq>
     company_name jane_contacted \<and>
   updated_lead example_runtime (clock 2) jane_contacted
       (jane_fields\<lparr>status := CONTACTED, company_name := ''Acme Corp''\<rparr>) =
     Inr (jane_contacted\<lparr>company_name := ''Acme Corp''\<rparr>) \<and>
   activity_history (jane_contacted\<lparr>company_name := ''Acme Corp''\<rparr>) =
     activity_history jane_contacted \<and>
   appended_to jane_contacted (jane_contacted\<lparr>company_name := ''Acme Corp''\<rparr>) = []"
proof -
  have fields: "status jane_contacted = CONTACTED \<and> notes jane_contacted = Some [] \<and>
      tags jane_contacted = [''a'', ''b''] \<and> company_name jane_contacted = ''Acme''"
    by (simp add: jane_contacted_def jane_fields_def)
  have "LeadBase example_runtime (jane_fields\<lparr>status := CONTACTED, company_name := ''Acme Corp''\<rparr>) =
      Inr (jane_fields\<lparr>status := CONTACTED, company_name := ''Acme Corp''\<rparr>)"
    by (simp add: LeadBase_jane length_between_def jane_fields_def)
  then have "updated_lead example_runtime (clock 2) jane_contacted
       (jane_fields\<lparr>status := CONTACTED, company_name := ''Acme Corp''\<rparr>) =
     Inr (jane_contacted\<lparr>company_name := ''Acme Corp''\<rparr>)"
    by (simp add: updated_lead_eq LeadBase_Lead appended_parts fields listed_order_def)
      (simp add: jane_contacted_def jane_fields_def make_lead_def)
  with first_status_update fields show ?thesis
    by (simp add: appended_to_def jane_fields_def)
qed

theorem status_change_tracked_witness:
  "updated_lead example_runtime (clock 1) jane_lead (jane_fields\<lparr>status := CONTACTED\<rparr>) =
     Inr jane_contacted \<and>
   length (filter (\<lambda>a. act_type a = STATUS_CHANGED) (appended_to jane_lead jane_contacted)) = 1 \<and>
   last_contacted jane_contacted = Some (clock 1)"
  using first_status_update status_change_tracked [OF first_status_update]
  by (simp add: jane_simps jane_contacted_def)

text \<open>
  An update that the program accepts and that raises. The field set with the long URL
  and the status \<open>CONTACTED\<close> is what validation makes of the field set as it is sent.
  The status differs from the stored one, and \<open>update_lead\<close> raises \<^verbatim>\<open>ValidationError\<close>:
  the file still holds the lead of Jane Doe, with no \<open>STATUS_CHANGED\<close> entry and no
  \<open>last_contacted\<close>.
\<close>

theorem status_change_rejected:
  "LeadBase example_runtime (long_input\<lparr>status := CONTACTED\<rparr>) =
     Inr (long_fields\<lparr>status := CONTACTED\<rparr>) \<and>
   status (long_fields\<lparr>status := CONTACTED\<rparr>) \<noteq> status jane_lead \<and>
   updated_lead example_runtime (clock 1) jane_lead (long_fields\<lparr>status := CONTACTED\<rparr>) =
     Inl ValidationError \<and>
   update_lead example_runtime (clock 1) ''lead-1'' (long_fields\<lparr>status := CONTACTED\<rparr>)
       (Some (leads_document example_runtime [jane_lead])) =
     (Some (leads_document example_runtime [jane_lead]), Inl ValidationError) \<and>
   load_leads example_runtime (Some (leads_document example_runtime [jane_lead])) =
     (Some (leads_document example_runtime [jane_lead]), Inr [jane_lead]) \<and>
   filter (\<lambda>a. act_type a = STATUS_CHANGED) (activity_history jane_lead) = [] \<and>
   last_contacted jane_lead = None"
proof -
  have accepted: "LeadBase example_runtime (long_input\<lparr>status := CONTACTED\<rparr>) =
     Inr (long_fields\<lparr>status := CONTACTED\<rparr>)"
    by (simp add: LeadBase_long_input length_between_def long_input_def long_fields_def
        jane_fields_def)
  have long: "500 < length (linkedin_url (long_fields\<lparr>status := CONTACTED\<rparr>))"
    using length_long_urls by (simp add: long_fields_def)
  have m: "''lead-1'' \<in> lead_id ` set [jane_lead]"
    by (simp add: lead_ids)
  note updated_lead_long_url [OF long, of example_runtime "clock 1" jane_lead]
    update_lead_long_url [OF load_jane m long, of "clock 1"]
  with accepted load_jane show ?thesis
    by (simp add: jane_simps long_fields_def jane_fields_def)
qed

theorem tag_changes_tracked_witness:
  "\<exists>new. updated_lead example_runtime (clock 1) jane_lead (jane_fields\<lparr>tags := [''b'', ''c'']\<rparr>) =
       Inr new \<and>
     iterates (set_order example_runtime)
       (set (tags (jane_fields\<lparr>tags := [''b'', ''c'']\<rparr>)) - set (tags jane_lead)) \<and>
     iterates (set_order example_runtime)
       (set (tags jane_lead) - set (tags (jane_fields\<lparr>tags := [''b'', ''c'']\<rparr>))) \<and>
     ''c'' \<in> set (tags (jane_fields\<lparr>tags := [''b'', ''c'']\<rparr>)) - set (tags jane_lead) \<and>
     ''a'' \<in> set (tags jane_lead) - set (tags (jane_fields\<lparr>tags := [''b'', ''c'']\<rparr>)) \<and>
     length (filter (\<lambda>a. act_type a = TAG_ADDED \<and> description a = tag_added_description ''c'')
       (appended_to jane_lead new)) = 1 \<and>
     length (filter (\<lambda>a. act_type a = TAG_REMOVED \<and> description a = tag_removed_description ''a'')
       (appended_to jane_lead new)) = 1 \<and>
     map act_type (appended_to jane_lead new) = [TAG_ADDED, TAG_REMOVED]"
proof -
  have "LeadBase example_runtime (jane_fields\<lparr>tags := [''b'', ''c'']\<rparr>) =
      Inr (jane_fields\<lparr>tags := [''b'', ''c'']\<rparr>)"
    by (simp add: LeadBase_jane length_between_def jane_fields_def)
  then obtain new where
    h: "updated_lead example_runtime (clock 1) jane_lead (jane_fields\<lparr>tags := [''b'', ''c'']\<rparr>) =
       Inr new"
    by (simp add: updated_lead_eq LeadBase_Lead)
  have h1: "iterates (set_order example_runtime)
     (set (tags (jane_fields\<lparr>tags := [''b'', ''c'']\<rparr>)) - set (tags jane_lead))"
    by (simp, rule iterates_listed_order) (auto simp: jane_simps)
  have h2: "iterates (set_order example_runtime)
     (set (tags jane_lead) - set (tags (jane_fields\<lparr>tags := [''b'', ''c'']\<rparr>)))"
    by (simp, rule iterates_listed_order) (auto simp: jane_simps)
  have m: "map act_type (appended_to jane_lead new) = [TAG_ADDED, TAG_REMOVED]"
    by (simp add: appended_to_updated_lead [OF h] appended_parts jane_simps listed_order_def
        jane_fields_def)
  have c: "''c'' \<in> set (tags (jane_fields\<lparr>tags := [''b'', ''c'']\<rparr>)) - set (tags jane_lead)"
    by (simp add: jane_simps)
  have a: "''a'' \<in> set (tags jane_lead) - set (tags (jane_fields\<lparr>tags := [''b'', ''c'']\<rparr>))"
    by (simp add: jane_simps)
  note tracked = tag_changes_tracked [OF h h1 h2]
  from tracked c have r1:
    "length (filter (\<lambda>a. act_type a = TAG_ADDED \<and> description a = tag_added_description ''c'')
       (appended_to jane_lead new)) = 1"
    by blast
  from tracked a have r2:
    "length (filter (\<lambda>a. act_type a = TAG_REMOVED \<and> description a = tag_removed_description ''a'')
       (appended_to jane_lead new)) = 1"
    by blast
  from h h1 h2 c a r1 r2 m show ?thesis
    by (intro exI [of _ new] conjI)
qed

text \<open>
  The same field set with other tags: the update changes the tag set and raises, and
  the file still holds the lead of Jane Doe, with no tag entry in its history.
\<close>

theorem tag_changes_rejected:
  "LeadBase example_runtime (long_input\<lparr>tags := [''b'', ''c'']\<rparr>) =
     Inr (long_fields\<lparr>tags := [''b'', ''c'']\<rparr>) \<and>
   ''c'' \<in> set (tags (long_fields\<lparr>tags := [''b'', ''c'']\<rparr>)) - set (tags jane_lead) \<and>
   iterates (set_order example_runtime)
     (set (tags (long_fields\<lparr>tags := [''b'', ''c'']\<rparr>)) - set (tags jane_lead)) \<and>
   iterates (set_order example_runtime)
     (set (tags jane_lead) - set (tags (long_fields\<lparr>tags := [''b'', ''c'']\<rparr>))) \<and>
   updated_lead example_runtime (clock 1) jane_lead (long_fields\<lparr>tags := [''b'', ''c'']\<rparr>) =
     Inl ValidationError \<and>
   update_lead example_runtime (clock 1) ''lead-1'' (long_fields\<lparr>tags := [''b'', ''c'']\<rparr>)
       (Some (leads_document example_runtime [jane_lead])) =
     (Some (leads_document example_runtime [jane_lead]), Inl ValidationError) \<and>
   load_leads example_runtime (Some (leads_document example_runtime [jane_lead])) =
     (Some (leads_document example_runtime [jane_lead]), Inr [jane_lead]) \<and>
   filter (\<lambda>a. act_type a = TAG_ADDED) (activity_history jane_lead) = []"
proof -
  have accepted: "LeadBase example_runtime (long_input\<lparr>tags := [''b'', ''c'']\<rparr>) =
     Inr (long_fields\<lparr>tags := [''b'', ''c'']\<rparr>)"
    by (simp add: LeadBase_long_input length_between_def long_input_def long_fields_def
        jane_fields_def)
  have long: "500 < length (linkedin_url (long_fields\<lparr>tags := [''b'', ''c'']\<rparr>))"
    using length_long_urls by (simp add: long_fields_def)
  have m: "''lead-1'' \<in> lead_id ` set [jane_lead]"
    by (simp add: lead_ids)
  have h1: "iterates (set_order example_runtime)
     (set (tags (long_fields\<lparr>tags := [''b'', ''c'']\<rparr>)) - set (tags jane_lead))"
    by (simp, rule iterates_listed_order) (auto simp: jane_simps)
  have h2: "iterates (set_order example_runtime)
     (set (tags jane_lead) - set (tags (long_fields\<lparr>tags := [''b'', ''c'']\<rparr>)))"
    by (simp, rule iterates_listed_order) (auto simp: jane_simps)
  have c: "''c'' \<in> set (tags (long_fields\<lparr>tags := [''b'', ''c'']\<rparr>)) - set (tags jane_lead)"
    by (simp add: jane_simps)
  have none: "filter (\<lambda>a. act_type a = TAG_ADDED) (activity_history jane_lead) = []"
    by (simp add: jane_simps)
  note u = updated_lead_long_url [OF long, of example_runtime "clock 1" jane_lead]
    and v = update_lead_long_url [OF load_jane m long, of "clock 1"]
  from accepted c h1 h2 u v load_jane none show ?thesis
    by (intro conjI)
qed

theorem note_added_tracked_witness:
  "\<exists>new. updated_lead example_runtime (clock 1) jane_lead
         (jane_fields\<lparr>notes := Some ''Call back on Monday''\<rparr>) = Inr new \<and>
     notes (jane_fields\<lparr>notes := Some ''Call back on Monday''\<rparr>) \<noteq> notes jane_lead \<and>
     map details (filter (\<lambda>a. act_type a = NOTE_ADDED) (appended_to jane_lead new)) =
       [Some ''Call back on Monday'']"
proof -
  have "LeadBase example_runtime (jane_fields\<lparr>notes := Some ''Call back on Monday''\<rparr>) =
      Inr (jane_fields\<lparr>notes := Some ''Call back on Monday''\<rparr>)"
    by (simp add: LeadBase_jane length_between_def jane_fields_def)
  then obtain new where
    h: "updated_lead example_runtime (clock 1) jane_lead
         (jane_fields\<lparr>notes := Some ''Call back on Monday''\<rparr>) = Inr new"
    by (simp add: updated_lead_eq LeadBase_Lead)
  have "map details (filter (\<lambda>a. act_type a = NOTE_ADDED) (appended_to jane_lead new)) =
       [Some ''Call back on Monday'']"
    by (simp add: appended_to_updated_lead [OF h] appended_parts jane_simps listed_order_def
        jane_fields_def)
  with h note_added_tracked [OF h] show ?thesis
    by (intro exI [of _ new]) (simp add: jane_simps)
qed

text \<open>
  The same field set with new notes: the notes are not empty and differ from the stored
  ones, the update raises, and the file still holds the lead of Jane Doe, with no
  \<open>NOTE_ADDED\<close> entry in its history.
\<close>

theorem note_added_rejected:
  "LeadBase example_runtime (long_input\<lparr>notes := Some ''Call back on Monday''\<rparr>) =
     Inr (long_fields\<lparr>notes := Some ''Call back on Monday''\<rparr>) \<and>
   notes (long_fields\<lparr>notes := Some ''Call back on Monday''\<rparr>) \<noteq> notes jane_lead \<and>
   updated_lead example_runtime (clock 1) jane_lead
       (long_fields\<lparr>notes := Some ''Call back on Monday''\<rparr>) = Inl ValidationError \<and>
   update_lead example_runtime (clock 1) ''lead-1''
       (long_fields\<lparr>notes := Some ''Call back on Monday''\<rparr>)
       (Some (leads_document example_runtime [jane_lead])) =
     (Some (leads_document example_runtime [jane_lead]), Inl ValidationError) \<and>
   load_leads example_runtime (Some (leads_document example_runtime [jane_lead])) =
     (Some (leads_document example_runtime [jane_lead]), Inr [jane_lead]) \<and>
   filter (\<lambda>a. act_type a = NOTE_ADDED) (activity_history jane_lead) = []"
proof -
  have accepted: "LeadBase example_runtime (long_input\<lparr>notes := Some ''Call back on Monday''\<rparr>) =
     Inr (long_fields\<lparr>notes := Some ''Call back on Monday''\<rparr>)"
    by (simp add: LeadBase_long_input length_between_def long_input_def long_fields_def
        jane_fields_def)
  have long: "500 < length (linkedin_url (long_fields\<lparr>notes := Some ''Call back on Monday''\<rparr>))"
    using length_long_urls by (simp add: long_fields_def)
  have m: "''lead-1'' \<in> lead_id ` set [jane_lead]"
    by (simp add: lead_ids)
  have differ: "notes (long_fields\<lparr>notes := Some ''Call back on Monday''\<rparr>) \<noteq> notes jane_lead"
    by (simp add: jane_simps)
  have none: "filter (\<lambda>a. act_type a = NOTE_ADDED) (activity_history jane_lead) = []"
    by (simp add: jane_simps)
  note u = updated_lead_long_url [OF long, of example_runtime "clock 1" jane_lead]
    and v = update_lead_long_url [OF load_jane m long, of "clock 1"]
  from accepted differ u v load_jane none show ?thesis
    by (intro conjI)
qed

theorem update_preserves_identity_and_history_witness:
  "updated_lead example_runtime (clock 1) jane_lead (jane_fields\<lparr>status := CONTACTED\<rparr>) =
     Inr jane_contacted \<and>
   lead_id jane_contacted = lead_id jane_lead \<and> date_added jane_contacted = date_added jane_lead \<and>
   take (length (activity_history jane_lead)) (activity_history jane_contacted) =
     activity_history jane_lead \<and>
   activity_history jane_contacted = activity_history jane_lead @ appended_to jane_lead jane_contacted"
  using first_status_update
    update_preserves_identity_and_history [where rt = example_runtime and now = "clock 1"
      and lead = jane_lead and lead_data = "jane_fields\<lparr>status := CONTACTED\<rparr>"]
  by simp

theorem create_lead_seeds_history_witness:
  "load_leads example_runtime None = (Some (PDict [(''leads'', PList [])]), Inr []) \<and>
   LeadBase example_runtime jane_fields = Inr jane_fields \<and>
   create_lead example_runtime (clock 0) ''lead-1'' jane_fields None =
     (Some (leads_document example_runtime [jane_lead]), Inr jane_lead)"
proof -
  note h = load_leads_absent [of example_runtime]
  have b: "LeadBase example_runtime jane_fields = Inr jane_fields"
    by (simp add: LeadBase_jane length_between_def jane_fields_def)
  from create_lead_seeds_history [OF h b, of "clock 0" "''lead-1''"]
  obtain new where run: "create_lead example_runtime (clock 0) ''lead-1'' jane_fields None =
      (Some (leads_document example_runtime ([] @ [new])), Inr new)"
    and hist: "\<exists>a. activity_history new = [a] \<and> act_type a = CREATED \<and> timestamp a = clock 0 \<and>
      description a = ''Lead created for '' @ contact_name jane_fields \<and> details a = None"
    and new: "new = make_lead ''lead-1'' (clock 0) None (activity_history new) jane_fields"
    by blast
  from hist obtain a where a: "activity_history new = [a]" "act_type a = CREATED"
    "timestamp a = clock 0" "description a = ''Lead created for '' @ contact_name jane_fields"
    "details a = None"
    by blast
  then have "a = Activity (clock 0) CREATED ''Lead created for Jane Doe'' None"
    by (cases a) (simp add: Activity_def jane_fields_def)
  with a(1) new have "new = jane_lead"
    by (simp add: jane_lead_def)
  with run h b show ?thesis by simp
qed

text \<open>
  A field set that the program accepts and cannot store. The field set with the long URL
  is what validation makes of the field set as it is sent; \<open>create_lead\<close> raises
  \<^verbatim>\<open>ValidationError\<close> on it and returns no lead.
\<close>

theorem create_lead_rejected:
  "LeadBase example_runtime long_input = Inr long_fields \<and>
   load_leads example_runtime None = (Some (PDict [(''leads'', PList [])]), Inr []) \<and>
   create_lead example_runtime (clock 0) ''lead-9'' long_fields None =
     (Some (PDict [(''leads'', PList [])]), Inl ValidationError)"
proof -
  have accepted: "LeadBase example_runtime long_input = Inr long_fields"
    by (simp add: LeadBase_long_input length_between_def long_input_def long_fields_def
        jane_fields_def)
  have long: "500 < length (linkedin_url long_fields)"
    using length_long_urls by (simp add: long_fields_def)
  note h = load_leads_absent [of example_runtime]
  note c = create_lead_long_url [OF h long, of "clock 0" "''lead-9''"]
  from accepted h c show ?thesis
    by (intro conjI)
qed

theorem get_stats_counts_witness:
  "load_leads example_runtime (Some (leads_document example_runtime [omar_lead, jane_lead])) =
     (Some (leads_document example_runtime [omar_lead, jane_lead]), Inr [omar_lead, jane_lead]) \<and>
   get_stats example_runtime (Some (leads_document example_runtime [omar_lead, jane_lead])) =
     (Some (leads_document example_runtime [omar_lead, jane_lead]),
      Inr \<lparr>total = 2,
           by_status = [(''not_contacted'', 2), (''contacted'', 0), (''responded'', 0)],
           top_companies = [(''Globex'', 1), (''Acme'', 1)]\<rparr>)"
proof -
  note h = load_two_leads
  have f: "status jane_lead = NOT_CONTACTED \<and> status omar_lead = NOT_CONTACTED \<and>
      company_name jane_lead = ''Acme'' \<and> company_name omar_lead = ''Globex''"
    by (simp add: jane_lead_def omar_lead_def jane_fields_def)
  from get_stats_counts [OF h] h show ?thesis
    by (simp add: get_stats_def f sorted_reverse_def)
qed

theorem save_then_load_witness:
  "list_all (reads_back example_runtime) (concat (map lead_timestamps [jane_contacted])) \<and>
   list_all (keeps_fields example_runtime) [jane_contacted] \<and>
   snd (save_leads example_runtime [jane_contacted] None) = Inr () \<and>
   load_leads example_runtime (fst (save_leads example_runtime [jane_contacted] None)) =
     (fst (save_leads example_runtime [jane_contacted] None), Inr [jane_contacted])"
proof -
  have h: "list_all (reads_back example_runtime) (concat (map lead_timestamps [jane_contacted]))"
    using reads_back_example by (simp add: example_timestamps)
  have k: "list_all (keeps_fields example_runtime) [jane_contacted]"
    by (simp add: keeps_fields_examples)
  from h k save_then_load [OF h k, of None] show ?thesis
    by (intro conjI) simp_all
qed

text \<open>
  A lead that is saved and cannot be loaded. \<open>long_lead\<close> is the lead that the constructor
  returns for the field set with the long URL as it is sent; saving the collection of
  this lead succeeds, and loading the saved file raises \<^verbatim>\<open>ValidationError\<close>.
\<close>

theorem save_then_load_rejected:
  "Lead example_runtime ''lead-9'' (clock 0) None
       [Activity (clock 0) CREATED ''Lead created for Jane Doe'' None] long_input =
     Inr long_lead \<and>
   list_all (reads_back example_runtime) (concat (map lead_timestamps [long_lead])) \<and>
   snd (save_leads example_runtime [long_lead] None) = Inr () \<and>
   snd (load_leads example_runtime (fst (save_leads example_runtime [long_lead] None))) =
     Inl ValidationError"
proof -
  have accepted: "LeadBase example_runtime long_input = Inr long_fields"
    by (simp add: LeadBase_long_input length_between_def long_input_def long_fields_def
        jane_fields_def)
  then have built: "Lead example_runtime ''lead-9'' (clock 0) None
       [Activity (clock 0) CREATED ''Lead created for Jane Doe'' None] long_input =
     Inr long_lead"
    by (simp add: LeadBase_Lead long_lead_def)
  have ts: "list_all (reads_back example_runtime) (lead_timestamps long_lead)"
    using reads_back_example by (simp add: example_timestamps)
  have long: "500 < length (linkedin_url long_lead)"
    using length_long_urls by (simp add: long_lead_def long_fields_def)
  have "load_lead example_runtime (PDict (lead_entry example_runtime long_lead)) =
      Inl ValidationError"
    using ts long by (rule load_lead_long_url)
  then have "snd (load_leads example_runtime (Some (leads_document example_runtime [long_lead]))) =
      Inl ValidationError"
    by (simp add: load_leads_def ensure_data_file_exists_def leads_document_def)
  with built ts show ?thesis
    by (simp add: save_leads_result)
qed

theorem delete_lead_effect_witness:
  "load_leads example_runtime (Some (leads_document example_runtime [omar_lead, jane_lead])) =
     (Some (leads_document example_runtime [omar_lead, jane_lead]), Inr [omar_lead, jane_lead]) \<and>
   distinct (map lead_id [omar_lead, jane_lead]) \<and>
   delete_lead example_runtime ''lead-1''
       (Some (leads_document example_runtime [omar_lead, jane_lead])) =
     (Some (leads_document example_runtime [omar_lead]), Inr True) \<and>
   delete_lead example_runtime ''lead-3''
       (Some (leads_document example_runtime [omar_lead, jane_lead])) =
     (Some (leads_document example_runtime [omar_lead, jane_lead]), Inr False)"
proof -
  note h = load_two_leads
  have 1: "delete_lead example_runtime ''lead-1''
       (Some (leads_document example_runtime [omar_lead, jane_lead])) =
     (Some (leads_document example_runtime [omar_lead]), Inr True)"
    using delete_lead_effect [OF h, of "''lead-1''"] by (simp add: lead_ids)
  have 2: "delete_lead example_runtime ''lead-3''
       (Some (leads_document example_runtime [omar_lead, jane_lead])) =
     (Some (leads_document example_runtime [omar_lead, jane_lead]), Inr False)"
    using delete_lead_effect [OF h, of "''lead-3''"]
    by (simp add: lead_ids ensure_data_file_exists_def)
  have 3: "distinct (map lead_id [omar_lead, jane_lead])"
    by (simp add: lead_ids)
  from h 1 2 3 show ?thesis by (intro conjI)
qed

theorem update_lead_frame_witness:
  "load_leads example_runtime (Some (leads_document example_runtime [omar_lead, jane_lead])) =
     (Some (leads_document example_runtime [omar_lead, jane_lead]), Inr [omar_lead, jane_lead]) \<and>
   ''lead-1'' \<in> lead_id ` set [omar_lead, jane_lead] \<and>
   update_lead example_runtime (clock 1) ''lead-1'' (jane_fields\<lparr>status := CONTACTED\<rparr>)
       (Some (leads_document example_runtime [omar_lead, jane_lead])) =
     (Some (leads_document example_runtime [omar_lead, jane_contacted]),
      Inr (Some jane_contacted)) \<and>
   update_lead example_runtime (clock 1) ''lead-1'' (long_fields\<lparr>status := CONTACTED\<rparr>)
       (Some (leads_document example_runtime [omar_lead, jane_lead])) =
     (Some (leads_document example_runtime [omar_lead, jane_lead]), Inl ValidationError)"
proof -
  note h = load_two_leads
  have m: "''lead-1'' \<in> lead_id ` set [omar_lead, jane_lead]"
    by (simp add: lead_ids)
  from update_lead_frame [OF h m, of "clock 1" "jane_fields\<lparr>status := CONTACTED\<rparr>"]
  obtain leads' where alt:
    "(\<exists>k updated. k < length [omar_lead, jane_lead] \<and>
        lead_id ([omar_lead, jane_lead] ! k) = ''lead-1'' \<and>
        updated_lead example_runtime (clock 1) ([omar_lead, jane_lead] ! k)
          (jane_fields\<lparr>status := CONTACTED\<rparr>) = Inr updated \<and>
        leads' = [omar_lead, jane_lead][k := updated] \<and>
        update_lead example_runtime (clock 1) ''lead-1'' (jane_fields\<lparr>status := CONTACTED\<rparr>)
            (Some (leads_document example_runtime [omar_lead, jane_lead])) =
          (Some (leads_document example_runtime leads'), Inr (Some updated))) \<or>
     (leads' = [omar_lead, jane_lead] \<and>
        update_lead example_runtime (clock 1) ''lead-1'' (jane_fields\<lparr>status := CONTACTED\<rparr>)
            (Some (leads_document example_runtime [omar_lead, jane_lead])) =
          (Some (leads_document example_runtime [omar_lead, jane_lead]), Inl ValidationError) \<and>
        load_leads example_runtime (Some (leads_document example_runtime [omar_lead, jane_lead])) =
          (Some (leads_document example_runtime [omar_lead, jane_lead]),
           Inr [omar_lead, jane_lead]))"
    by blast
  have run: "update_lead example_runtime (clock 1) ''lead-1'' (jane_fields\<lparr>status := CONTACTED\<rparr>)
       (Some (leads_document example_runtime [omar_lead, jane_lead])) =
     (Some (leads_document example_runtime [omar_lead, jane_contacted]),
      Inr (Some jane_contacted))"
    using h first_status_update
    by (simp add: update_lead_def lead_ids save_leads_result)
  have long: "500 < length (linkedin_url (long_fields\<lparr>status := CONTACTED\<rparr>))"
    using length_long_urls by (simp add: long_fields_def)
  note rejected = update_lead_long_url [OF h m long, of "clock 1"]
  from h m run rejected alt show ?thesis
    by (intro conjI)
qed

end
